theory Spec2Isabelle
  imports Main "HOL-Library.Sublist" "HOL-Library.AList"
begin

section \<open>Python values, exceptions and strings\<close>

text \<open>
  The scraper \<^verbatim>\<open>selenium_transcript.py\<close> drives a browser through Selenium.  The
  browser and the web site are the environment of the program: every call into the
  driver is modelled by the value it returns, or by the exception it raises.  An
  exception is a value \<open>Inl e\<close> of the sum type \<open>error + 'a\<close>; a normal return is
  \<open>Inr v\<close>.  Console output (\<^verbatim>\<open>print\<close>) and \<^verbatim>\<open>time.sleep\<close> have no effect on
  the values the program computes and are left out.
\<close>

datatype error =
    WebDriverError string    \<comment> \<open>any exception raised inside Selenium (no such element, stale element, ...)\<close>
  | AttributeError           \<comment> \<open>attribute access on an object that lacks it\<close>
  | UnboundLocalError        \<comment> \<open>read of a local variable that was never assigned\<close>
  | KeyError string          \<comment> \<open>\<^verbatim>\<open>d[k]\<close> on a missing key\<close>
  | OSError string           \<comment> \<open>\<^verbatim>\<open>open\<close> failed\<close>
  | CaseNotFound string      \<comment> \<open>line 63: \<^verbatim>\<open>raise Exception("Could not find case containing ...")\<close>\<close>
  | BlocksNotLoaded          \<comment> \<open>line 278: \<^verbatim>\<open>raise Exception("Could not load transcript blocks ...")\<close>\<close>

type_synonym 'a result = "error + 'a"

subsection \<open>The string methods the scraper calls\<close>

text \<open>
  A Python \<^verbatim>\<open>str\<close> is a sequence of code points; a \<^typ>\<open>char\<close> stands for a code
  point below 256.  \<^verbatim>\<open>str.strip()\<close> and \<^verbatim>\<open>str.split()\<close> treat as whitespace
  the code points 9 to 13, 28 to 32, 133 and 160 of that range.
\<close>

definition is_space :: "char \<Rightarrow> bool" where
  "is_space c =
     (let n = (of_char c :: nat)
      in (9 \<le> n \<and> n \<le> 13) \<or> (28 \<le> n \<and> n \<le> 32) \<or> n = 133 \<or> n = 160)"

definition py_strip :: "string \<Rightarrow> string" where
  "py_strip s = rev (dropWhile is_space (rev (dropWhile is_space s)))"

text \<open>
  \<^verbatim>\<open>str.lower()\<close>: the upper-case letters A to Z, and the Latin-1 capitals 192 to 222
  (but not the multiplication sign 215), move 32 code points up.
\<close>

definition lower_char :: "char \<Rightarrow> char" where
  "lower_char c =
     (let n = (of_char c :: nat)
      in if (65 \<le> n \<and> n \<le> 90) \<or> (192 \<le> n \<and> n \<le> 222 \<and> n \<noteq> 215)
         then char_of (n + 32) else c)"

definition py_lower :: "string \<Rightarrow> string" where
  "py_lower s = map lower_char s"

text \<open>
  \<^verbatim>\<open>s.split()\<close> with no argument: the maximal runs of characters that are not
  whitespace, in order; \<open>cur\<close> is the run being read.
\<close>

fun split_ws :: "string \<Rightarrow> string \<Rightarrow> string list" where
  "split_ws cur [] = (if cur = [] then [] else [cur])"
| "split_ws cur (c # cs) =
     (if is_space c then (if cur = [] then split_ws [] cs else cur # split_ws [] cs)
      else split_ws (cur @ [c]) cs)"

definition py_split :: "string \<Rightarrow> string list" where
  "py_split s = split_ws [] s"

text \<open>\<^verbatim>\<open>sub in s\<close> on strings: \<open>sub\<close> occurs in \<open>s\<close> as a contiguous piece.\<close>

fun py_in :: "string \<Rightarrow> string \<Rightarrow> bool" where
  "py_in sub [] = (sub = [])"
| "py_in sub (c # cs) = (prefix sub (c # cs) \<or> py_in sub cs)"

text \<open>
  \<^verbatim>\<open>s.replace(old, new)\<close> for a non-empty \<open>old\<close>: every occurrence of \<open>old\<close>, found
  from the left without overlap, is replaced.  (The scraper only passes non-empty
  constants as \<open>old\<close>; for an empty \<open>old\<close> the model returns \<open>s\<close>.)
\<close>

fun py_replace :: "string \<Rightarrow> string \<Rightarrow> string \<Rightarrow> string" where
  "py_replace old new [] = []"
| "py_replace old new (c # cs) =
     (if old \<noteq> [] \<and> prefix old (c # cs)
      then new @ py_replace old new (drop (length old - 1) cs)
      else c # py_replace old new cs)"

text \<open>\<^verbatim>\<open>sep.join(xs)\<close>.\<close>

fun py_join :: "string \<Rightarrow> string list \<Rightarrow> string" where
  "py_join sep [] = []"
| "py_join sep [x] = x"
| "py_join sep (x # y # ys) = x @ sep @ py_join sep (y # ys)"

subsection \<open>Values stored in the metadata dictionary\<close>

record advocate =
  adv_name :: string
  adv_role :: string

datatype pyval =
    PNone
  | PStr string
  | PAdvocates "advocate list"

text \<open>Truthiness, as \<^verbatim>\<open>if v:\<close> tests it.\<close>

fun truthy :: "pyval \<Rightarrow> bool" where
  "truthy PNone = False"
| "truthy (PStr s) = (s \<noteq> [])"
| "truthy (PAdvocates as) = (as \<noteq> [])"

text \<open>
  A Python \<^verbatim>\<open>dict\<close> keeps its keys in insertion order, and assigning to a key that
  is present replaces the value in place: an association list with
  \<^const>\<open>AList.update\<close>.  \<^verbatim>\<open>d.get(k)\<close> is \<^verbatim>\<open>None\<close> on a missing key.
\<close>

type_synonym metadata = "(string \<times> pyval) list"

definition dict_set :: "string \<Rightarrow> pyval \<Rightarrow> metadata \<Rightarrow> metadata" where
  "dict_set k v d = AList.update k v d"

definition dict_get :: "metadata \<Rightarrow> string \<Rightarrow> pyval" where
  "dict_get d k = (case map_of d k of None \<Rightarrow> PNone | Some v \<Rightarrow> v)"

section \<open>The case listing: finding the target case\<close>

text \<open>
  One entry of the listing page.  \<open>h2_a\<close> is what
  \<^verbatim>\<open>case.find_element(By.CSS_SELECTOR, 'h2 a')\<close> gives: the link, or the exception
  raised when the entry has no such element.
\<close>

record link =
  link_text :: string
  link_href :: "string option"

record case_item =
  h2_a :: "link result"
  description_el :: "string result"

text \<open>Line 55: \<^verbatim>\<open>any(word.lower() in title.lower() for word in case_name.split())\<close>.\<close>

definition any_word_in_title :: "string \<Rightarrow> string \<Rightarrow> bool" where
  "any_word_in_title case_name title =
     list_ex (\<lambda>word. py_in (py_lower word) (py_lower title)) (py_split case_name)"

text \<open>
  Lines 50 to 60: the loop that sets \<^verbatim>\<open>target_case\<close>.  An entry whose title
  cannot be read raises inside the \<^verbatim>\<open>try\<close> and the handler continues with the
  next entry; the first entry that matches ends the loop.
\<close>

fun find_target_case :: "string \<Rightarrow> case_item list \<Rightarrow> case_item option" where
  "find_target_case case_name [] = None"
| "find_target_case case_name (c # cases) =
     (case h2_a c of
        Inl e \<Rightarrow> find_target_case case_name cases
      | Inr a \<Rightarrow>
          (let title = py_strip (link_text a)
           in if any_word_in_title case_name title then Some c
              else find_target_case case_name cases))"

section \<open>The case detail page and the metadata extractor\<close>

text \<open>
  What the selectors of \<^verbatim>\<open>get_case_metadata\<close> find on the detail page.  A
  \<^verbatim>\<open>find_element\<close> that matches nothing raises; the field then holds \<open>Inl e\<close>.
  A field that holds \<open>Inr s\<close> gives the \<^verbatim>\<open>.text\<close> of the element found (for the
  oral-argument links: its \<^verbatim>\<open>iframe-url\<close> attribute).
\<close>

record parties_row =
  petitioner_div :: "string result"      \<comment> \<open>\<^verbatim>\<open>.//div[h3[text()='Petitioner']]\<close>\<close>
  respondent_div :: "string result"      \<comment> \<open>\<^verbatim>\<open>.//div[h3[text()='Respondent']]\<close>\<close>

record advocate_el =
  advocate_a :: "string result"            \<comment> \<open>\<^verbatim>\<open>advocate.find_element(By.CSS_SELECTOR, 'a')\<close>\<close>
  advocate_description :: "string result"  \<comment> \<open>\<^verbatim>\<open>advocate.find_element(By.CSS_SELECTOR, '.description')\<close>\<close>

record timeline_item =
  item_h3 :: "string result"       \<comment> \<open>\<^verbatim>\<open>item.find_element(By.CSS_SELECTOR, 'h3')\<close>\<close>
  item_date :: "string result"     \<comment> \<open>\<^verbatim>\<open>item.find_element(By.CSS_SELECTOR, 'div.ng-binding.ng-scope')\<close>\<close>

record timeline_section =
  citation_span :: "string result"
  timeline_items :: "timeline_item list"

record case_page =
  parties :: "parties_row result"               \<comment> \<open>\<^verbatim>\<open>div.row:first-child\<close>\<close>
  docket_no_node :: "string result"             \<comment> \<open>\<^verbatim>\<open>//div[h3[text()='Docket no.']]/text()\<close>\<close>
  decided_by_a :: "string result"               \<comment> \<open>\<^verbatim>\<open>//div[h3[text()='Decided by']]//a\<close>\<close>
  lower_court_div :: "string result"            \<comment> \<open>\<^verbatim>\<open>//div[h3[text()='Lower court']]\<close>\<close>
  advocates_section :: "advocate_el list result" \<comment> \<open>the section, then its \<^verbatim>\<open>.advocate\<close> elements\<close>
  facts_section :: "string list result"         \<comment> \<open>the section, then the text of each paragraph\<close>
  question_section :: "string list result"
  conclusion_section :: "string list result"
  oral_argument_primary :: "string option result"
     \<comment> \<open>\<^verbatim>\<open>a[data-gtm-category="Audios"][data-gtm-type="click"][iframe-url*="oral_argument_audio"]\<close>\<close>
  oral_argument_alternative :: "string option result"
     \<comment> \<open>\<^verbatim>\<open>a[iframe-url*="oral_argument_audio"]\<close>\<close>
  timeline :: "timeline_section result"         \<comment> \<open>\<^verbatim>\<open>div.cell:has(div.subcell)\<close>\<close>

text \<open>A value read with \<^verbatim>\<open>get_attribute\<close>: the attribute's text, or \<^verbatim>\<open>None\<close>.\<close>

fun attr_val :: "string option \<Rightarrow> pyval" where
  "attr_val None = PNone"
| "attr_val (Some s) = PStr s"

text \<open>Lines 84 to 89: the parties.  The handler only prints.\<close>

definition get_parties :: "case_page \<Rightarrow> metadata \<Rightarrow> metadata" where
  "get_parties page metadata =
     (case parties page of
        Inl e \<Rightarrow> metadata
      | Inr row \<Rightarrow>
          (case petitioner_div row of
             Inl e \<Rightarrow> metadata
           | Inr p \<Rightarrow>
               (let metadata = dict_set ''petitioner''
                      (PStr (py_strip (py_replace ''Petitioner'' [] p))) metadata
                in case respondent_div row of
                     Inl e \<Rightarrow> metadata
                   | Inr r \<Rightarrow>
                       dict_set ''respondent''
                         (PStr (py_strip (py_replace ''Respondent'' [] r))) metadata)))"

text \<open>
  Lines 92 to 97: docket number, deciding court, lower court.  Line 93 calls
  \<^verbatim>\<open>.strip()\<close> on what \<^verbatim>\<open>find_element\<close> returns, which is a \<^verbatim>\<open>WebElement\<close>
  and has no such attribute: when the element is found the call raises
  \<^verbatim>\<open>AttributeError\<close>.
\<close>

definition webelement_strip :: "string \<Rightarrow> string result" where
  "webelement_strip el = Inl AttributeError"

definition get_case_details :: "case_page \<Rightarrow> metadata \<Rightarrow> metadata" where
  "get_case_details page metadata =
     (case docket_no_node page of
        Inl e \<Rightarrow> metadata
      | Inr el \<Rightarrow>
          (case webelement_strip el of
             Inl e \<Rightarrow> metadata
           | Inr docket \<Rightarrow>
               (let metadata = dict_set ''docket_no'' (PStr docket) metadata
                in case decided_by_a page of
                     Inl e \<Rightarrow> metadata
                   | Inr d \<Rightarrow>
                       (let metadata = dict_set ''decided_by'' (PStr (py_strip d)) metadata
                        in case lower_court_div page of
                             Inl e \<Rightarrow> metadata
                           | Inr l \<Rightarrow>
                               dict_set ''lower_court''
                                 (PStr (py_strip (py_replace ''Lower court'' [] l))) metadata))))"

text \<open>Lines 100 to 112: the advocates; the list is stored only when every one was read.\<close>

fun collect_advocates :: "advocate_el list \<Rightarrow> advocate list \<Rightarrow> advocate list result" where
  "collect_advocates [] advocates = Inr advocates"
| "collect_advocates (a # as) advocates =
     (case advocate_a a of
        Inl e \<Rightarrow> Inl e
      | Inr n \<Rightarrow>
          (case advocate_description a of
             Inl e \<Rightarrow> Inl e
           | Inr r \<Rightarrow>
               collect_advocates as
                 (advocates @ [\<lparr>adv_name = py_strip n, adv_role = py_strip r\<rparr>])))"

definition get_advocates :: "case_page \<Rightarrow> metadata \<Rightarrow> metadata" where
  "get_advocates page metadata =
     (case advocates_section page of
        Inl e \<Rightarrow> metadata
      | Inr els \<Rightarrow>
          (case collect_advocates els [] of
             Inl e \<Rightarrow> metadata
           | Inr advocates \<Rightarrow> dict_set ''advocates'' (PAdvocates advocates) metadata))"

text \<open>Lines 115 to 136: facts, question and conclusion, each in a \<^verbatim>\<open>try\<close> of its own.\<close>

definition paragraphs_text :: "string list \<Rightarrow> string" where
  "paragraphs_text ps = py_join [CHR 0x0A, CHR 0x0A] (map py_strip ps)"

definition get_facts :: "case_page \<Rightarrow> metadata \<Rightarrow> metadata" where
  "get_facts page metadata =
     (case facts_section page of
        Inl e \<Rightarrow> metadata
      | Inr ps \<Rightarrow> dict_set ''facts'' (PStr (paragraphs_text ps)) metadata)"

definition get_question :: "case_page \<Rightarrow> metadata \<Rightarrow> metadata" where
  "get_question page metadata =
     (case question_section page of
        Inl e \<Rightarrow> metadata
      | Inr ps \<Rightarrow> dict_set ''question'' (PStr (paragraphs_text ps)) metadata)"

definition get_conclusion :: "case_page \<Rightarrow> metadata \<Rightarrow> metadata" where
  "get_conclusion page metadata =
     (case conclusion_section page of
        Inl e \<Rightarrow> metadata
      | Inr ps \<Rightarrow> dict_set ''conclusion'' (PStr (paragraphs_text ps)) metadata)"

text \<open>
  Lines 139 to 163: the oral-argument URL.  The alternative selector is tried inside
  the handler of the first one; when it raises too, the key is set to \<^verbatim>\<open>None\<close>.
\<close>

definition get_oral_argument_url :: "case_page \<Rightarrow> metadata \<Rightarrow> metadata" where
  "get_oral_argument_url page metadata =
     (case oral_argument_primary page of
        Inr iframe_url \<Rightarrow> dict_set ''oral_argument_url'' (attr_val iframe_url) metadata
      | Inl e \<Rightarrow>
          (case oral_argument_alternative page of
             Inr iframe_url \<Rightarrow> dict_set ''oral_argument_url'' (attr_val iframe_url) metadata
           | Inl e2 \<Rightarrow> dict_set ''oral_argument_url'' PNone metadata))"

text \<open>
  Lines 186 to 195: the loop over the timeline items.  \<open>header\<close> is the local variable
  of that name: \<open>None\<close> while it is unbound, and otherwise whatever the last successful
  assignment of line 189 left in it.  The handler of line 193 reads \<open>header\<close>; when it
  is unbound the handler itself raises, which ends the loop (the result carries the
  exception, and the dictionary as it is at that point).
\<close>

fun timeline_loop ::
  "timeline_item list \<Rightarrow> string option \<Rightarrow> metadata \<Rightarrow> metadata \<times> error option" where
  "timeline_loop [] header metadata = (metadata, None)"
| "timeline_loop (item # items) header metadata =
     (case item_h3 item of
        Inl e \<Rightarrow>
          (case header of
             None \<Rightarrow> (metadata, Some UnboundLocalError)
           | Some h \<Rightarrow> timeline_loop items header (dict_set h PNone metadata))
      | Inr h3 \<Rightarrow>
          (let h = py_lower (py_strip h3)
           in case item_date item of
                Inl e \<Rightarrow> timeline_loop items (Some h) (dict_set h PNone metadata)
              | Inr d \<Rightarrow> timeline_loop items (Some h) (dict_set h (PStr (py_strip d)) metadata)))"

text \<open>Lines 166 to 198: citation and timeline dates; the outer handler only prints.\<close>

definition get_timeline :: "case_page \<Rightarrow> metadata \<Rightarrow> metadata" where
  "get_timeline page metadata =
     (case timeline page of
        Inl e \<Rightarrow> metadata
      | Inr section \<Rightarrow>
          (let metadata =
                 (case citation_span section of
                    Inr c \<Rightarrow> dict_set ''citation'' (PStr (py_strip c)) metadata
                  | Inl e \<Rightarrow> dict_set ''citation'' PNone metadata)
           in fst (timeline_loop (timeline_items section) None metadata)))"

text \<open>Lines 84 to 198: the detail page, one group after the other.\<close>

definition extract_details :: "case_page \<Rightarrow> metadata \<Rightarrow> metadata" where
  "extract_details page metadata =
     get_timeline page
       (get_oral_argument_url page
          (get_conclusion page
             (get_question page
                (get_facts page
                   (get_advocates page
                      (get_case_details page
                         (get_parties page metadata)))))))"

text \<open>
  A transcript block, as the loop of lines 292 to 340 observes it: the result of each
  driver call the loop makes on the block, in the order of the calls.  Any of them may
  raise (a stale element, a script error).

  The web as the driver sees it.  \<open>chrome\<close> is the creation of the session
  (line 240); the three page functions give what \<^verbatim>\<open>driver.get(url)\<close> loads, or the
  exception it raises; a transcript page is given by what
  \<^verbatim>\<open>driver.find_elements(By.CSS_SELECTOR, 'p.ng-binding.ng-scope.ng-isolate-scope')\<close>
  returns at each attempt of the retry loop; \<open>open_file\<close> is
  \<^verbatim>\<open>open(filename, 'w')\<close>.
\<close>

record block =
  block_click :: "unit result"
     \<comment> \<open>line 295: \<^verbatim>\<open>driver.execute_script("arguments[0].click();", block)\<close>\<close>
  block_text :: "string result"
     \<comment> \<open>line 298: \<^verbatim>\<open>block.text\<close>, read after the click\<close>
  block_start_time :: "string option result"
     \<comment> \<open>line 301: \<^verbatim>\<open>block.get_attribute('start-time')\<close>\<close>
  block_stop_time :: "string option result"
     \<comment> \<open>line 302: \<^verbatim>\<open>block.get_attribute('stop-time')\<close>\<close>
  block_turn :: "string option option result"
     \<comment> \<open>lines 305 to 317: \<open>Inr None\<close> when the block has no enclosing
        \<^verbatim>\<open>.transcript-turn\<close>, \<open>Inr (Some None)\<close> when that turn has no
        \<^verbatim>\<open>h4.ng-binding\<close>, \<open>Inr (Some (Some l))\<close> when the label's text is \<open>l\<close>\<close>
  page_speakers :: "string list result"
     \<comment> \<open>lines 323 to 325: the texts of all \<^verbatim>\<open>h4.ng-binding\<close> elements of the page\<close>

record web =
  chrome :: "unit result"
  listing_page :: "string \<Rightarrow> case_item list result"
  detail_page :: "string \<Rightarrow> case_page result"
  transcript_page :: "string \<Rightarrow> (nat \<Rightarrow> block list result) result"
  open_file :: "string \<Rightarrow> unit result"

text \<open>\<^verbatim>\<open>driver.get(case_url)\<close>, where \<open>case_url\<close> may be \<^verbatim>\<open>None\<close>.\<close>

definition driver_get_case :: "web \<Rightarrow> string option \<Rightarrow> case_page result" where
  "driver_get_case w case_url =
     (case case_url of
        None \<Rightarrow> Inl (WebDriverError ''invalid argument'')
      | Some u \<Rightarrow> detail_page w u)"

text \<open>
  Lines 65 to 201: the outer \<^verbatim>\<open>try\<close>.  Its handler only prints, so an exception
  at any of its own statements leaves the dictionary as filled so far.
\<close>

definition extract_metadata :: "web \<Rightarrow> case_item \<Rightarrow> metadata" where
  "extract_metadata w target_case =
     (let metadata = []
      in case h2_a target_case of
           Inl e \<Rightarrow> metadata
         | Inr case_link \<Rightarrow>
             (let metadata = dict_set ''title'' (PStr (py_strip (link_text case_link))) metadata;
                  case_url = link_href case_link;
                  metadata = dict_set ''url'' (attr_val case_url) metadata
              in case description_el target_case of
                   Inl e \<Rightarrow> metadata
                 | Inr d \<Rightarrow>
                     (let metadata = dict_set ''description'' (PStr (py_strip d)) metadata
                      in case driver_get_case w case_url of
                           Inl e \<Rightarrow> metadata
                         | Inr page \<Rightarrow> extract_details page metadata)))"

text \<open>
  \<^verbatim>\<open>get_case_metadata(driver, case_year, case_name)\<close>.  Loading the listing (line 32)
  and the \<^verbatim>\<open>raise\<close> of line 63 are outside every \<^verbatim>\<open>try\<close> of the function.
\<close>

definition listing_url :: "string \<Rightarrow> string" where
  "listing_url case_year = ''https://www.oyez.org/cases/'' @ case_year"

definition get_case_metadata :: "web \<Rightarrow> string \<Rightarrow> string \<Rightarrow> metadata result" where
  "get_case_metadata w case_year case_name =
     (case listing_page w (listing_url case_year) of
        Inl e \<Rightarrow> Inl e
      | Inr case_items \<Rightarrow>
          (case find_target_case case_name case_items of
             None \<Rightarrow> Inl (CaseNotFound case_name)
           | Some target_case \<Rightarrow> Inr (extract_metadata w target_case)))"

section \<open>The transcript extractor\<close>

record entry =
  entry_speaker :: string
  entry_text :: string
  entry_start_time :: "string option"
  entry_stop_time :: "string option"

text \<open>Truthiness of a value that is a string or \<^verbatim>\<open>None\<close>.\<close>

fun str_truthy :: "string option \<Rightarrow> bool" where
  "str_truthy None = False"
| "str_truthy (Some s) = (s \<noteq> [])"

text \<open>The JavaScript function \<^verbatim>\<open>findSpeaker\<close> of lines 306 to 315.\<close>

definition findSpeaker :: "string option option \<Rightarrow> string option" where
  "findSpeaker turn =
     (case turn of
        None \<Rightarrow> None
      | Some label \<Rightarrow> (case label of None \<Rightarrow> None | Some textContent \<Rightarrow> Some textContent))"

text \<open>
  Lines 321 to 325, the \<^verbatim>\<open>elif not current_speaker\<close> branch: with no speaker so
  far, the first \<^verbatim>\<open>h4.ng-binding\<close> of the page is taken.
\<close>

definition fallback_speaker :: "string option \<Rightarrow> block \<Rightarrow> string option result" where
  "fallback_speaker current_speaker b =
     (if \<not> str_truthy current_speaker
      then (case page_speakers b of
              Inl e \<Rightarrow> Inl e
            | Inr speakers \<Rightarrow>
                (case speakers of
                   [] \<Rightarrow> Inr current_speaker
                 | s # rest \<Rightarrow> Inr (Some (py_strip s))))
      else Inr current_speaker)"

text \<open>Lines 305 to 325: the value of \<^verbatim>\<open>current_speaker\<close> after the block.\<close>

definition resolve_speaker :: "string option \<Rightarrow> block \<Rightarrow> string option result" where
  "resolve_speaker current_speaker b =
     (case block_turn b of
        Inl e \<Rightarrow> Inl e
      | Inr turn \<Rightarrow>
          (case findSpeaker turn of
             None \<Rightarrow> fallback_speaker current_speaker b
           | Some speaker \<Rightarrow>
               if speaker \<noteq> [] then Inr (Some (py_strip speaker))
               else fallback_speaker current_speaker b))"

text \<open>Lines 295 to 302: click, text and the two timing attributes.\<close>

definition read_block :: "block \<Rightarrow> (string \<times> string option \<times> string option) result" where
  "read_block b =
     (case block_click b of
        Inl e \<Rightarrow> Inl e
      | Inr u \<Rightarrow>
          (case block_text b of
             Inl e \<Rightarrow> Inl e
           | Inr t \<Rightarrow>
               (case block_start_time b of
                  Inl e \<Rightarrow> Inl e
                | Inr start_time \<Rightarrow>
                    (case block_stop_time b of
                       Inl e \<Rightarrow> Inl e
                     | Inr stop_time \<Rightarrow> Inr (py_strip t, start_time, stop_time)))))"

text \<open>
  Lines 293 to 340: one round of the loop, on the pair of \<^verbatim>\<open>current_speaker\<close> and
  \<^verbatim>\<open>transcript\<close>.  The handler of line 338 prints and continues; the two variables
  keep the values they had when the exception was raised, and no statement of the
  \<^verbatim>\<open>try\<close> body assigns to either before the last call that can raise.
\<close>

definition process_block ::
  "string option \<times> entry list \<Rightarrow> block \<Rightarrow> string option \<times> entry list" where
  "process_block st b =
     (case st of (current_speaker, transcript) \<Rightarrow>
        (case read_block b of
           Inl e \<Rightarrow> (current_speaker, transcript)
         | Inr (text, start_time, stop_time) \<Rightarrow>
             (case resolve_speaker current_speaker b of
                Inl e \<Rightarrow> (current_speaker, transcript)
              | Inr current_speaker \<Rightarrow>
                  (case current_speaker of
                     None \<Rightarrow> (current_speaker, transcript)
                   | Some speaker \<Rightarrow>
                       if text \<noteq> [] \<and> speaker \<noteq> []
                       then (current_speaker,
                             transcript @
                               [\<lparr>entry_speaker = speaker, entry_text = text,
                                 entry_start_time = start_time, entry_stop_time = stop_time\<rparr>])
                       else (current_speaker, transcript)))))"

fun transcript_loop ::
  "block list \<Rightarrow> string option \<times> entry list \<Rightarrow> string option \<times> entry list" where
  "transcript_loop [] st = st"
| "transcript_loop (b # blocks) st = transcript_loop blocks (process_block st b)"

text \<open>
  Lines 267 to 278: up to \<^verbatim>\<open>max_retries\<close> polls for the blocks; \<open>blocks\<close> holds the
  result of the last poll made.
\<close>

definition max_retries :: nat where
  "max_retries = 3"

fun poll_blocks ::
  "(nat \<Rightarrow> block list result) \<Rightarrow> nat list \<Rightarrow> block list \<Rightarrow> block list result" where
  "poll_blocks find_elements [] blocks = Inr blocks"
| "poll_blocks find_elements (attempt # attempts) blocks =
     (case find_elements attempt of
        Inl e \<Rightarrow> Inl e
      | Inr found \<Rightarrow>
          if found \<noteq> [] then Inr found else poll_blocks find_elements attempts found)"

definition get_blocks :: "(nat \<Rightarrow> block list result) \<Rightarrow> block list result" where
  "get_blocks find_elements =
     (case poll_blocks find_elements [0..<max_retries] [] of
        Inl e \<Rightarrow> Inl e
      | Inr blocks \<Rightarrow> if blocks = [] then Inl BlocksNotLoaded else Inr blocks)"

text \<open>
  The document written at the end of a run (lines 343 to 357), with its keys
  \<^verbatim>\<open>case_name\<close>, \<^verbatim>\<open>argument_date\<close>, \<^verbatim>\<open>metadata\<close>, \<^verbatim>\<open>transcript\<close> and
  \<^verbatim>\<open>transcript_mode\<close>.
\<close>

record scrape_result =
  result_case_name :: string
  result_argument_date :: pyval
  result_metadata :: metadata
  result_transcript :: "entry list"
  result_transcript_mode :: string

definition safe_case_name :: "string \<Rightarrow> string" where
  "safe_case_name title =
     py_replace ''v'' ''v'' (py_replace ''.'' [] (py_replace '','' [] (py_replace '' '' ''_'' title)))"

definition output_filename :: "string \<Rightarrow> bool \<Rightarrow> string" where
  "output_filename title full_transcript =
     safe_case_name title @ ''_transcript'' @ (if \<not> full_transcript then ''_test'' else ''_full'')
       @ ''.json''"

text \<open>
  Lines 343 to 357.  \<^verbatim>\<open>metadata['title']\<close> raises \<^verbatim>\<open>KeyError\<close> on a missing key,
  and \<^verbatim>\<open>.replace\<close> raises \<^verbatim>\<open>AttributeError\<close> on a value that is not a string.
\<close>

definition save_result ::
  "web \<Rightarrow> metadata \<Rightarrow> entry list \<Rightarrow> bool \<Rightarrow> (string \<times> scrape_result) result" where
  "save_result w metadata entries full_transcript =
     (case map_of metadata ''title'' of
        None \<Rightarrow> Inl (KeyError ''title'')
      | Some title \<Rightarrow>
          (case title of
             PStr t \<Rightarrow>
               (let result = \<lparr>result_case_name = t,
                              result_argument_date = dict_get metadata ''argued'',
                              result_metadata = metadata,
                              result_transcript = entries,
                              result_transcript_mode =
                                (if \<not> full_transcript then ''TEST (first 3 blocks)'' else ''FULL'')\<rparr>;
                    filename = output_filename t full_transcript
                in case open_file w filename of
                     Inl e \<Rightarrow> Inl e
                   | Inr u \<Rightarrow> Inr (filename, result))
           | PNone \<Rightarrow> Inl AttributeError
           | PAdvocates as \<Rightarrow> Inl AttributeError))"

text \<open>
  Lines 283 to 340: the mode's limit on the blocks, then the loop from
  \<^verbatim>\<open>current_speaker = None\<close> and \<^verbatim>\<open>transcript = []\<close>.
\<close>

definition limit_blocks :: "bool \<Rightarrow> block list \<Rightarrow> block list" where
  "limit_blocks full_transcript blocks = (if \<not> full_transcript then take 3 blocks else blocks)"

definition build_transcript :: "bool \<Rightarrow> block list \<Rightarrow> entry list" where
  "build_transcript full_transcript blocks =
     snd (transcript_loop (limit_blocks full_transcript blocks) (None, []))"

text \<open>
  Lines 244 to 359, the body of the \<^verbatim>\<open>try\<close>: \<open>Inl e\<close> when an exception reaches the
  handler of line 361, \<open>Inr None\<close> for the early \<^verbatim>\<open>return\<close> of line 251, and
  \<open>Inr (Some f)\<close> when the file \<open>f\<close> was written.  (The wait of lines 259 to 264
  changes no variable: its handler sleeps and goes on.)
\<close>

definition transcript_body ::
  "web \<Rightarrow> string \<Rightarrow> string \<Rightarrow> bool \<Rightarrow> (string \<times> scrape_result) option result" where
  "transcript_body w case_year case_name full_transcript =
     (case get_case_metadata w case_year case_name of
        Inl e \<Rightarrow> Inl e
      | Inr metadata \<Rightarrow>
          (let oral_argument_url = dict_get metadata ''oral_argument_url''
           in if \<not> truthy oral_argument_url then Inr None
              else
                (case oral_argument_url of
                   PStr url \<Rightarrow>
                     (case transcript_page w url of
                        Inl e \<Rightarrow> Inl e
                      | Inr find_elements \<Rightarrow>
                          (case get_blocks find_elements of
                             Inl e \<Rightarrow> Inl e
                           | Inr blocks \<Rightarrow>
                               (case save_result w metadata
                                       (build_transcript full_transcript blocks) full_transcript of
                                  Inl e \<Rightarrow> Inl e
                                | Inr f \<Rightarrow> Inr (Some f))))
                 | PNone \<Rightarrow> Inl (WebDriverError ''invalid argument'')
                 | PAdvocates as \<Rightarrow> Inl (WebDriverError ''invalid argument''))))"

text \<open>
  What a call of \<^verbatim>\<open>get_transcript_with_selenium\<close> leaves behind: the exception that
  leaves the function (if any), the exception its handler of line 361 caught and
  printed (if any), whether \<^verbatim>\<open>driver.quit()\<close> was called, and the file written.
\<close>

record run =
  raised :: "error option"
  reported :: "error option"
  session_quit :: bool
  output_file :: "(string \<times> scrape_result) option"

text \<open>
  Lines 237 to 364.  The session is created before the \<^verbatim>\<open>try\<close>; when that raises,
  the exception leaves the function and there is no session.  Otherwise the body
  runs, the handler catches what it raises, and the \<^verbatim>\<open>finally\<close> clause quits the
  driver.
\<close>

definition get_transcript_with_selenium :: "web \<Rightarrow> string \<Rightarrow> string \<Rightarrow> bool \<Rightarrow> run" where
  "get_transcript_with_selenium w case_year case_name full_transcript =
     (case chrome w of
        Inl e \<Rightarrow> \<lparr>raised = Some e, reported = None, session_quit = False, output_file = None\<rparr>
      | Inr driver \<Rightarrow>
          (let r = (case transcript_body w case_year case_name full_transcript of
                      Inl e \<Rightarrow> \<lparr>raised = None, reported = Some e, session_quit = False,
                                output_file = None\<rparr>
                    | Inr f \<Rightarrow> \<lparr>raised = None, reported = None, session_quit = False,
                                output_file = f\<rparr>)
           in r\<lparr>session_quit := True\<rparr>))"

section \<open>Notions of the specification\<close>

subsection \<open>The matcher\<close>

text \<open>
  A title contains a token case-insensitively when some contiguous piece of the title
  equals the token once both are lower-cased.  An entry matches a case-name fragment
  when its title can be read and contains one of the fragment's whitespace-delimited
  tokens in that way.
\<close>

definition contains_ci :: "string \<Rightarrow> string \<Rightarrow> bool" where
  "contains_ci title token = (\<exists>u. sublist u title \<and> py_lower u = py_lower token)"

definition title_matches :: "string \<Rightarrow> case_item \<Rightarrow> bool" where
  "title_matches case_name c =
     (case h2_a c of
        Inl e \<Rightarrow> False
      | Inr a \<Rightarrow> (\<exists>token \<in> set (py_split case_name). contains_ci (py_strip (link_text a)) token))"

subsection \<open>The keys of the metadata dictionary\<close>

text \<open>
  The keys the timeline loop writes are not fixed by the program: they are the
  trimmed, lower-cased header texts found on the page.
\<close>

fun item_keys :: "timeline_item list \<Rightarrow> string list" where
  "item_keys [] = []"
| "item_keys (item # items) =
     (case item_h3 item of
        Inl e \<Rightarrow> item_keys items
      | Inr h3 \<Rightarrow> py_lower (py_strip h3) # item_keys items)"

definition timeline_keys :: "case_page \<Rightarrow> string list" where
  "timeline_keys page =
     (case timeline page of Inl e \<Rightarrow> [] | Inr sec \<Rightarrow> item_keys (timeline_items sec))"

definition oral_argument_value :: "case_page \<Rightarrow> pyval" where
  "oral_argument_value page =
     (case oral_argument_primary page of
        Inr u \<Rightarrow> attr_val u
      | Inl e \<Rightarrow> (case oral_argument_alternative page of Inr u \<Rightarrow> attr_val u | Inl e2 \<Rightarrow> PNone))"

subsection \<open>The states of a block\<close>

text \<open>
  The specification's state machine of a block: it ends \<open>APPENDED\<close> with the entry
  that line 334 appends, \<open>SKIPPED\<close> when the test of line 327 fails, or \<open>FAILED\<close> with
  the exception that the handler of line 338 catches.
\<close>

datatype block_state = APPENDED entry | SKIPPED | FAILED error

definition block_outcome :: "string option \<Rightarrow> block \<Rightarrow> block_state" where
  "block_outcome current_speaker b =
     (case read_block b of
        Inl e \<Rightarrow> FAILED e
      | Inr (text, start_time, stop_time) \<Rightarrow>
          (case resolve_speaker current_speaker b of
             Inl e \<Rightarrow> FAILED e
           | Inr None \<Rightarrow> SKIPPED
           | Inr (Some speaker) \<Rightarrow>
               if text \<noteq> [] \<and> speaker \<noteq> []
               then APPENDED \<lparr>entry_speaker = speaker, entry_text = text,
                               entry_start_time = start_time, entry_stop_time = stop_time\<rparr>
               else SKIPPED))"

text \<open>
  The values of \<^verbatim>\<open>text\<close> and \<^verbatim>\<open>current_speaker\<close> that line 327 tests, for a block
  processed with \<open>current_speaker\<close> as the speaker carried so far; \<open>None\<close> when an
  exception keeps the block from reaching that line.  A block has text when that
  \<^verbatim>\<open>text\<close> is not empty, and a resolved speaker when that \<^verbatim>\<open>current_speaker\<close> is
  neither \<^verbatim>\<open>None\<close> nor empty.
\<close>

definition text_and_speaker :: "string option \<Rightarrow> block \<Rightarrow> (string \<times> string option) option" where
  "text_and_speaker current_speaker b =
     (case read_block b of
        Inl e \<Rightarrow> None
      | Inr (text, start_time, stop_time) \<Rightarrow>
          (case resolve_speaker current_speaker b of
             Inl e \<Rightarrow> None
           | Inr current_speaker \<Rightarrow> Some (text, current_speaker)))"

definition has_text :: "string option \<Rightarrow> block \<Rightarrow> bool" where
  "has_text current_speaker b =
     (case text_and_speaker current_speaker b of
        None \<Rightarrow> False
      | Some (text, speaker) \<Rightarrow> text \<noteq> [])"

definition has_speaker :: "string option \<Rightarrow> block \<Rightarrow> bool" where
  "has_speaker current_speaker b =
     (case text_and_speaker current_speaker b of
        None \<Rightarrow> False
      | Some (text, speaker) \<Rightarrow> str_truthy speaker)"

definition emits :: "string option \<Rightarrow> block \<Rightarrow> bool" where
  "emits current_speaker b = (has_text current_speaker b \<and> has_speaker current_speaker b)"

text \<open>The value of \<^verbatim>\<open>current_speaker\<close> when the loop reaches block \<open>i\<close>.\<close>

definition speaker_before :: "block list \<Rightarrow> nat \<Rightarrow> string option" where
  "speaker_before blocks i = fst (transcript_loop (take i blocks) (None, []))"

text \<open>An entry comes from a block when it holds the block's text and timing attributes.\<close>

definition entry_from_block :: "entry \<Rightarrow> block \<Rightarrow> bool" where
  "entry_from_block e b =
     (read_block b = Inr (entry_text e, entry_start_time e, entry_stop_time e))"

text \<open>
  The label of the block's own turn container, when the script finds one and its text
  is not empty (the test of line 319).
\<close>

definition own_label :: "block \<Rightarrow> string option" where
  "own_label b =
     (case block_turn b of
        Inl e \<Rightarrow> None
      | Inr turn \<Rightarrow>
          (case findSpeaker turn of
             None \<Rightarrow> None
           | Some l \<Rightarrow> if l \<noteq> [] then Some l else None))"

text \<open>
  A block that declares a label but yields no entry: it is read without an exception,
  and its text is empty or its label is blank.
\<close>

definition labelled_without_entry :: "block \<Rightarrow> bool" where
  "labelled_without_entry b =
     (case read_block b of
        Inl e \<Rightarrow> False
      | Inr (text, start_time, stop_time) \<Rightarrow>
          (case own_label b of
             None \<Rightarrow> False
           | Some l \<Rightarrow> text = [] \<or> py_strip l = []))"

text \<open>
  The label a block declares to the loop: its own label, when the block is read
  without an exception (lines 295 to 302); a block whose reading raises never reaches
  the speaker script.
\<close>

definition declares_label :: "block \<Rightarrow> string option" where
  "declares_label b = (case read_block b of Inl e \<Rightarrow> None | Inr x \<Rightarrow> own_label b)"

text \<open>
  The relation between the two loop variables on which the carry-over law rests: the
  carried speaker is the speaker of the last entry, and no entry has an empty speaker.
\<close>

definition carry_inv :: "string option \<times> entry list \<Rightarrow> bool" where
  "carry_inv st =
     (case st of (cs, tr) \<Rightarrow>
        (tr = [] \<or> cs = Some (entry_speaker (last tr)))
        \<and> list_all (\<lambda>e. entry_speaker e \<noteq> []) tr)"

section \<open>Example inputs\<close>

definition no_such_element :: error where
  "no_such_element = WebDriverError ''no such element''"

definition acheson_link :: link where
  "acheson_link =
     \<lparr>link_text = '' Acheson Hotels, LLC v. Laufer '',
      link_href = Some ''https://www.oyez.org/cases/2023/22-429''\<rparr>"

definition acheson_item :: case_item where
  "acheson_item =
     \<lparr>h2_a = Inr acheson_link,
      description_el = Inr ''A case about standing to sue under the ADA.''\<rparr>"

definition acheson_item_bare :: case_item where
  "acheson_item_bare = \<lparr>h2_a = Inr acheson_link, description_el = Inl no_such_element\<rparr>"

definition culley_item :: case_item where
  "culley_item =
     \<lparr>h2_a = Inr \<lparr>link_text = ''Culley v. Marshall'',
                   link_href = Some ''https://www.oyez.org/cases/2023/22-585''\<rparr>,
      description_el = Inr ''A case about civil forfeiture.''\<rparr>"

definition moore_item :: case_item where
  "moore_item =
     \<lparr>h2_a = Inr \<lparr>link_text = ''Moore v. United States'',
                   link_href = Some ''https://www.oyez.org/cases/2023/22-800''\<rparr>,
      description_el = Inr ''A case about the Sixteenth Amendment.''\<rparr>"

definition untitled_item :: case_item where
  "untitled_item = \<lparr>h2_a = Inl no_such_element, description_el = Inl no_such_element\<rparr>"

definition demo_listing :: "case_item list" where
  "demo_listing = [untitled_item, moore_item, culley_item, acheson_item]"

definition granted_item :: timeline_item where
  "granted_item = \<lparr>item_h3 = Inr ''Granted'', item_date = Inr '' Mar 27, 2023 ''\<rparr>"

definition argued_item :: timeline_item where
  "argued_item = \<lparr>item_h3 = Inr ''Argued'', item_date = Inr ''Oct 4, 2023''\<rparr>"

definition argued_item_no_date :: timeline_item where
  "argued_item_no_date = \<lparr>item_h3 = Inr ''Argued'', item_date = Inl no_such_element\<rparr>"

definition decided_item :: timeline_item where
  "decided_item = \<lparr>item_h3 = Inr ''Decided'', item_date = Inr ''Dec 5, 2023''\<rparr>"

definition headless_item :: timeline_item where
  "headless_item = \<lparr>item_h3 = Inl no_such_element, item_date = Inr ''Oct 4, 2023''\<rparr>"

definition audio_url :: string where
  "audio_url = ''https://apps.oyez.org/player/#/roberts-10/oral_argument_audio/25532''"

definition demo_page :: case_page where
  "demo_page =
     \<lparr>parties = Inr \<lparr>petitioner_div = Inr ''Petitioner Acheson Hotels, LLC'',
                      respondent_div = Inr ''Respondent Deborah Laufer''\<rparr>,
      docket_no_node = Inr ''22-429'',
      decided_by_a = Inr ''Roberts Court'',
      lower_court_div = Inr ''Lower court First Circuit'',
      advocates_section =
        Inr [\<lparr>advocate_a = Inr ''Adam G. Unikowsky'',
              advocate_description = Inr '' for the Petitioner ''\<rparr>],
      facts_section = Inr [''Laufer sued Acheson Hotels. '', ''The district court dismissed.''],
      question_section = Inr [''Does a tester have standing?''],
      conclusion_section = Inr [''The case is moot.''],
      oral_argument_primary = Inr (Some audio_url),
      oral_argument_alternative = Inr (Some audio_url),
      timeline = Inr \<lparr>citation_span = Inr ''601 US _ (2023)'',
                       timeline_items = [granted_item, argued_item, decided_item]\<rparr>\<rparr>"

definition page_without_petitioner :: case_page where
  "page_without_petitioner =
     demo_page\<lparr>parties := Inr \<lparr>petitioner_div = Inl no_such_element,
                                 respondent_div = Inr ''Respondent Deborah Laufer''\<rparr>\<rparr>"

definition page_without_audio :: case_page where
  "page_without_audio =
     demo_page\<lparr>oral_argument_primary := Inl no_such_element,
               oral_argument_alternative := Inl no_such_element\<rparr>"

text \<open>A block whose driver calls all succeed, with the given text and turn container.\<close>

definition spoken :: "string \<Rightarrow> string option option \<Rightarrow> block" where
  "spoken t turn =
     \<lparr>block_click = Inr (), block_text = Inr t,
      block_start_time = Inr (Some ''12.5''), block_stop_time = Inr (Some ''17.25''),
      block_turn = Inr turn, page_speakers = Inr ['' John G. Roberts, Jr. '']\<rparr>"

definition stale_block :: block where
  "stale_block =
     \<lparr>block_click = Inr (), block_text = Inl (WebDriverError ''stale element reference''),
      block_start_time = Inr None, block_stop_time = Inr None,
      block_turn = Inr (Some (Some ''Elena Kagan'')), page_speakers = Inr []\<rparr>"

definition demo_blocks :: "block list" where
  "demo_blocks =
     [spoken '' We will hear argument '' (Some (Some '' John G. Roberts, Jr. '')),
      spoken ''this morning'' (Some None),
      spoken ''Mr. Unikowsky.'' None,
      stale_block,
      spoken ''Mr. Chief Justice,'' (Some (Some ''Adam G. Unikowsky'')),
      spoken ''   '' None,
      spoken ''and may it please the Court'' None]"

text \<open>Six blocks of which only every third declares a label.\<close>

definition every_third :: "block list" where
  "every_third =
     [spoken ''We will hear argument'' (Some (Some ''John G. Roberts, Jr.'')),
      spoken ''this morning'' None,
      spoken ''Mr. Unikowsky.'' None,
      spoken ''Mr. Chief Justice,'' (Some (Some ''Adam G. Unikowsky'')),
      spoken ''and may it please'' None,
      spoken ''the Court'' None]"

text \<open>
  A labelled block whose text stays empty after the click, between a labelled block
  and an unlabelled one.
\<close>

definition silent_turn :: "block list" where
  "silent_turn =
     [spoken ''Thank you, counsel.'' (Some (Some ''John G. Roberts, Jr.'')),
      spoken [] (Some (Some ''Elena Kagan'')),
      spoken ''May I ask about mootness?'' None]"

definition roberts :: "string \<Rightarrow> entry" where
  "roberts t =
     \<lparr>entry_speaker = ''John G. Roberts, Jr.'', entry_text = t,
      entry_start_time = Some ''12.5'', entry_stop_time = Some ''17.25''\<rparr>"

definition unikowsky :: "string \<Rightarrow> entry" where
  "unikowsky t =
     \<lparr>entry_speaker = ''Adam G. Unikowsky'', entry_text = t,
      entry_start_time = Some ''12.5'', entry_stop_time = Some ''17.25''\<rparr>"

definition kagan :: "string \<Rightarrow> entry" where
  "kagan t =
     \<lparr>entry_speaker = ''Elena Kagan'', entry_text = t,
      entry_start_time = Some ''12.5'', entry_stop_time = Some ''17.25''\<rparr>"

text \<open>The page renders its blocks only at the third poll.\<close>

definition late_blocks :: "block list \<Rightarrow> nat \<Rightarrow> block list result" where
  "late_blocks blocks attempt = (if attempt < 2 then Inr [] else Inr blocks)"

definition never_blocks :: "nat \<Rightarrow> block list result" where
  "never_blocks attempt = Inr []"

definition demo_web :: "case_item list \<Rightarrow> case_page \<Rightarrow> (nat \<Rightarrow> block list result) \<Rightarrow> web" where
  "demo_web items page find_elements =
     \<lparr>chrome = Inr (),
      listing_page =
        (\<lambda>url. if url = ''https://www.oyez.org/cases/2023'' then Inr items
               else Inl (WebDriverError ''page not found'')),
      detail_page =
        (\<lambda>url. if url = ''https://www.oyez.org/cases/2023/22-429'' then Inr page
               else Inl (WebDriverError ''page not found'')),
      transcript_page =
        (\<lambda>url. if url = audio_url then Inr find_elements
               else Inl (WebDriverError ''page not found'')),
      open_file = (\<lambda>filename. Inr ())\<rparr>"

definition no_chrome :: web where
  "no_chrome = (demo_web demo_listing demo_page never_blocks)
     \<lparr>chrome := Inl (WebDriverError ''session not created'')\<rparr>"

text \<open>A timeline item whose header is spelled like the key of the facts.\<close>

definition page_with_facts_header :: case_page where
  "page_with_facts_header =
     demo_page\<lparr>timeline :=
       Inr \<lparr>citation_span = Inr ''601 US _ (2023)'',
            timeline_items = [\<lparr>item_h3 = Inr ''Facts'', item_date = Inl no_such_element\<rparr>]\<rparr>\<rparr>"

text \<open>
  A page without either audio link, on which a timeline item is headed
  \<^verbatim>\<open>oral_argument_url\<close> and holds the address of the player.
\<close>

definition page_with_url_header :: case_page where
  "page_with_url_header =
     page_without_audio\<lparr>timeline :=
       Inr \<lparr>citation_span = Inr ''601 US _ (2023)'',
            timeline_items =
              [\<lparr>item_h3 = Inr ''oral_argument_url'', item_date = Inr audio_url\<rparr>]\<rparr>\<rparr>"

text \<open>A block whose label is blank, between a labelled block and an unlabelled one.\<close>

definition blank_label :: "block list" where
  "blank_label =
     [spoken ''Thank you, counsel.'' (Some (Some ''Elena Kagan'')),
      spoken ''Go on.'' (Some (Some ''  '')),
      spoken ''May I ask about mootness?'' None]"

section \<open>Auxiliary lemmas\<close>

subsection \<open>Lemmas about the matcher\<close>

lemma py_in_sublist: "py_in sub s = sublist sub s"
  by (induction s) (simp_all add: sublist_Cons_right)

lemma sublist_map_iff:
  "sublist (map f w) (map f t) \<longleftrightarrow> (\<exists>u. sublist u t \<and> map f u = map f w)"
proof
  assume "sublist (map f w) (map f t)"
  then obtain ps ss where "map f t = ps @ map f w @ ss" by (auto simp: sublist_def)
  then obtain ps' r where t: "t = ps' @ r" and "map f r = map f w @ ss"
    by (metis map_eq_append_conv)
  then obtain u ss' where "r = u @ ss'" and "map f u = map f w"
    by (metis map_eq_append_conv)
  with t have "sublist u t" by (auto simp: sublist_def)
  with \<open>map f u = map f w\<close> show "\<exists>u. sublist u t \<and> map f u = map f w" by blast
next
  assume "\<exists>u. sublist u t \<and> map f u = map f w"
  then obtain u where su: "sublist u t" and e: "map f u = map f w" by blast
  from su have "sublist (map f u) (map f t)" by (rule map_mono_sublist)
  with e show "sublist (map f w) (map f t)" by simp
qed

lemma any_word_in_title_iff:
  "any_word_in_title case_name title \<longleftrightarrow> (\<exists>token \<in> set (py_split case_name). contains_ci title token)"
  by (simp add: any_word_in_title_def list_ex_iff py_in_sublist py_lower_def contains_ci_def sublist_map_iff)

lemma title_matches_code:
  "title_matches case_name c =
     (case h2_a c of Inl e \<Rightarrow> False | Inr a \<Rightarrow> any_word_in_title case_name (py_strip (link_text a)))"
  by (simp add: title_matches_def any_word_in_title_iff split: sum.splits)

lemma find_target_case_step:
  "find_target_case case_name (c # cases) =
     (if title_matches case_name c then Some c else find_target_case case_name cases)"
  by (simp add: title_matches_code split: sum.splits)

lemma find_target_case_None_iff:
  "find_target_case case_name items = None \<longleftrightarrow> (\<forall>x \<in> set items. \<not> title_matches case_name x)"
proof (induction items)
  case Nil show ?case by simp
next
  case (Cons i items)
  then show ?case by (simp add: find_target_case_step del: find_target_case.simps)
qed

lemma find_target_case_Some_iff:
  "find_target_case case_name items = Some c \<longleftrightarrow>
     (\<exists>before after. items = before @ c # after \<and> title_matches case_name c
        \<and> (\<forall>x \<in> set before. \<not> title_matches case_name x))"
proof (induction items)
  case Nil show ?case by simp
next
  case (Cons i items)
  show ?case
  proof (cases "title_matches case_name i")
    case True
    have "(\<exists>before after. i # items = before @ c # after \<and> title_matches case_name c
        \<and> (\<forall>x \<in> set before. \<not> title_matches case_name x)) \<longleftrightarrow> c = i"
    proof
      assume "\<exists>before after. i # items = before @ c # after \<and> title_matches case_name c
        \<and> (\<forall>x \<in> set before. \<not> title_matches case_name x)"
      then obtain before after where d: "i # items = before @ c # after"
        and n: "\<forall>x \<in> set before. \<not> title_matches case_name x" by blast
      show "c = i"
      proof (cases before)
        case Nil with d show ?thesis by simp
      next
        case (Cons x xs)
        with d have "x = i" by simp
        with Cons n True show ?thesis by simp
      qed
    next
      assume "c = i"
      with True have "i # items = [] @ c # items \<and> title_matches case_name c
        \<and> (\<forall>x \<in> set []. \<not> title_matches case_name x)" by simp
      then show "\<exists>before after. i # items = before @ c # after \<and> title_matches case_name c
        \<and> (\<forall>x \<in> set before. \<not> title_matches case_name x)" by blast
    qed
    with True show ?thesis by (auto simp add: find_target_case_step simp del: find_target_case.simps)
  next
    case False
    have "(\<exists>before after. i # items = before @ c # after \<and> title_matches case_name c
        \<and> (\<forall>x \<in> set before. \<not> title_matches case_name x)) \<longleftrightarrow>
          (\<exists>before after. items = before @ c # after \<and> title_matches case_name c
        \<and> (\<forall>x \<in> set before. \<not> title_matches case_name x))"
    proof
      assume "\<exists>before after. i # items = before @ c # after \<and> title_matches case_name c
        \<and> (\<forall>x \<in> set before. \<not> title_matches case_name x)"
      then obtain before after where d: "i # items = before @ c # after"
        and m: "title_matches case_name c"
        and n: "\<forall>x \<in> set before. \<not> title_matches case_name x" by blast
      show "\<exists>before after. items = before @ c # after \<and> title_matches case_name c
        \<and> (\<forall>x \<in> set before. \<not> title_matches case_name x)"
      proof (cases before)
        case Nil with d m False show ?thesis by simp
      next
        case (Cons x xs)
        with d have "items = xs @ c # after" by simp
        moreover from Cons n have "\<forall>x \<in> set xs. \<not> title_matches case_name x" by simp
        ultimately show ?thesis using m by blast
      qed
    next
      assume "\<exists>before after. items = before @ c # after \<and> title_matches case_name c
        \<and> (\<forall>x \<in> set before. \<not> title_matches case_name x)"
      then obtain before after where d: "items = before @ c # after"
        and m: "title_matches case_name c"
        and n: "\<forall>x \<in> set before. \<not> title_matches case_name x" by blast
      from d have "i # items = (i # before) @ c # after" by simp
      moreover from n False have "\<forall>x \<in> set (i # before). \<not> title_matches case_name x" by simp
      ultimately show "\<exists>before after. i # items = before @ c # after \<and> title_matches case_name c
        \<and> (\<forall>x \<in> set before. \<not> title_matches case_name x)" using m by blast
    qed
    with False Cons.IH show ?thesis by (simp add: find_target_case_step del: find_target_case.simps)
  qed
qed

subsection \<open>Lemmas about the metadata dictionary\<close>

lemma map_of_dict_set:
  "map_of (dict_set k v m) k' = (if k' = k then Some v else map_of m k')"
  by (simp add: dict_set_def update_conv')

lemma parties_frame:
  "k \<noteq> ''petitioner'' \<Longrightarrow> k \<noteq> ''respondent'' \<Longrightarrow> map_of (get_parties page m) k = map_of m k"
  by (simp add: get_parties_def map_of_dict_set Let_def split: sum.splits)

lemma parties_petitioner:
  "map_of (get_parties page m) ''petitioner'' =
     (case parties page of
        Inl e \<Rightarrow> map_of m ''petitioner''
      | Inr row \<Rightarrow>
          (case petitioner_div row of
             Inl e \<Rightarrow> map_of m ''petitioner''
           | Inr p \<Rightarrow> Some (PStr (py_strip (py_replace ''Petitioner'' [] p)))))"
  by (simp add: get_parties_def map_of_dict_set Let_def split: sum.splits)

lemma parties_respondent:
  "map_of (get_parties page m) ''respondent'' =
     (case parties page of
        Inl e \<Rightarrow> map_of m ''respondent''
      | Inr row \<Rightarrow>
          (case petitioner_div row of
             Inl e \<Rightarrow> map_of m ''respondent''
           | Inr p \<Rightarrow>
               (case respondent_div row of
                  Inl e \<Rightarrow> map_of m ''respondent''
                | Inr r \<Rightarrow> Some (PStr (py_strip (py_replace ''Respondent'' [] r))))))"
  by (simp add: get_parties_def map_of_dict_set Let_def split: sum.splits)

lemma case_details_never: "get_case_details page m = m"
  by (simp add: get_case_details_def webelement_strip_def split: sum.splits)

lemma advocates_map:
  "map_of (get_advocates page m) k =
     (if k = ''advocates''
      then (case advocates_section page of
              Inl e \<Rightarrow> map_of m k
            | Inr els \<Rightarrow>
                (case collect_advocates els [] of
                   Inl e \<Rightarrow> map_of m k
                 | Inr advocates \<Rightarrow> Some (PAdvocates advocates)))
      else map_of m k)"
  by (simp add: get_advocates_def map_of_dict_set split: sum.splits)

lemma facts_map:
  "map_of (get_facts page m) k =
     (if k = ''facts''
      then (case facts_section page of
              Inl e \<Rightarrow> map_of m k
            | Inr ps \<Rightarrow> Some (PStr (paragraphs_text ps)))
      else map_of m k)"
  by (simp add: get_facts_def map_of_dict_set split: sum.splits)

lemma question_map:
  "map_of (get_question page m) k =
     (if k = ''question''
      then (case question_section page of
              Inl e \<Rightarrow> map_of m k
            | Inr ps \<Rightarrow> Some (PStr (paragraphs_text ps)))
      else map_of m k)"
  by (simp add: get_question_def map_of_dict_set split: sum.splits)

lemma conclusion_map:
  "map_of (get_conclusion page m) k =
     (if k = ''conclusion''
      then (case conclusion_section page of
              Inl e \<Rightarrow> map_of m k
            | Inr ps \<Rightarrow> Some (PStr (paragraphs_text ps)))
      else map_of m k)"
  by (simp add: get_conclusion_def map_of_dict_set split: sum.splits)

lemma oral_map:
  "map_of (get_oral_argument_url page m) k =
     (if k = ''oral_argument_url'' then Some (oral_argument_value page) else map_of m k)"
  by (simp add: get_oral_argument_url_def oral_argument_value_def map_of_dict_set split: sum.splits)

lemma timeline_loop_frame:
  "k \<notin> set (item_keys items) \<Longrightarrow> header \<noteq> Some k
     \<Longrightarrow> map_of (fst (timeline_loop items header m)) k = map_of m k"
proof (induction items arbitrary: header m)
  case Nil show ?case by simp
next
  case (Cons item items)
  show ?case
  proof (cases "item_h3 item")
    case (Inl e)
    with Cons.prems have k: "k \<notin> set (item_keys items)" by simp
    show ?thesis
    proof (cases header)
      case None with Inl show ?thesis by simp
    next
      case (Some h)
      with Cons.prems have "h \<noteq> k" by simp
      with Inl Some Cons.IH [OF k Cons.prems(2), of "dict_set h PNone m"]
      show ?thesis by (simp add: map_of_dict_set)
    qed
  next
    case (Inr h3)
    with Cons.prems have k: "k \<notin> set (item_keys items)" and ne: "py_lower (py_strip h3) \<noteq> k" by auto
    from ne have h: "Some (py_lower (py_strip h3)) \<noteq> Some k" by simp
    show ?thesis
      using Inr ne Cons.IH [OF k h] by (simp add: map_of_dict_set Let_def split: sum.splits)
  qed
qed

lemma timeline_loop_stays_None:
  "map_of m k = Some PNone \<Longrightarrow> k \<notin> set (item_keys items)
     \<Longrightarrow> map_of (fst (timeline_loop items header m)) k = Some PNone"
proof (induction items arbitrary: header m)
  case Nil then show ?case by simp
next
  case (Cons item items)
  show ?case
  proof (cases "item_h3 item")
    case (Inl e)
    with Cons.prems have k: "k \<notin> set (item_keys items)" by simp
    show ?thesis
    proof (cases header)
      case None with Inl Cons.prems show ?thesis by simp
    next
      case (Some h)
      have "map_of (dict_set h PNone m) k = Some PNone"
        using Cons.prems(1) by (simp add: map_of_dict_set)
      from Cons.IH [OF this k] Inl Some show ?thesis by simp
    qed
  next
    case (Inr h3)
    with Cons.prems have k: "k \<notin> set (item_keys items)" and ne: "py_lower (py_strip h3) \<noteq> k" by auto
    have m: "map_of (dict_set (py_lower (py_strip h3)) v m) k = Some PNone" for v
      using Cons.prems(1) ne by (simp add: map_of_dict_set)
    show ?thesis
      using Inr Cons.IH [OF m k] by (simp add: Let_def split: sum.splits)
  qed
qed

lemma timeline_frame:
  "k \<notin> set (timeline_keys page) \<Longrightarrow> k \<noteq> ''citation''
     \<Longrightarrow> map_of (get_timeline page m) k = map_of m k"
  by (cases "timeline page")
     (simp_all add: get_timeline_def timeline_keys_def Let_def timeline_loop_frame map_of_dict_set
        split: sum.splits)

lemma timeline_citation:
  "''citation'' \<notin> set (timeline_keys page) \<Longrightarrow>
   map_of (get_timeline page m) ''citation'' =
     (case timeline page of
        Inl e \<Rightarrow> map_of m ''citation''
      | Inr sec \<Rightarrow>
          Some (case citation_span sec of Inr c \<Rightarrow> PStr (py_strip c) | Inl e \<Rightarrow> PNone))"
  by (cases "timeline page")
     (simp_all add: get_timeline_def timeline_keys_def Let_def timeline_loop_frame map_of_dict_set
        split: sum.splits)

lemma extract_metadata_reached:
  assumes "h2_a c = Inr a" and "description_el c = Inr d"
      and "driver_get_case w (link_href a) = Inr page"
  shows "extract_metadata w c =
           extract_details page
             (dict_set ''description'' (PStr (py_strip d))
               (dict_set ''url'' (attr_val (link_href a))
                 (dict_set ''title'' (PStr (py_strip (link_text a))) [])))"
  using assms by (simp add: extract_metadata_def Let_def)

lemma entry_fields:
  "map_of (dict_set ''description'' dv (dict_set ''url'' uv (dict_set ''title'' tv [])))
     = [''title'' \<mapsto> tv, ''url'' \<mapsto> uv, ''description'' \<mapsto> dv]"
  by (rule ext) (simp add: map_of_dict_set)

lemma both_fail_field_null:
  assumes "h2_a c = Inr a" and "description_el c = Inr d"
      and "driver_get_case w (link_href a) = Inr page"
      and "oral_argument_primary page = Inl e" and "oral_argument_alternative page = Inl e2"
      and "''oral_argument_url'' \<notin> set (timeline_keys page)"
  shows "map_of (extract_metadata w c) ''oral_argument_url'' = Some PNone"
  using assms
  by (simp add: extract_metadata_reached [OF assms(1-3)] extract_details_def timeline_frame
      oral_map oral_argument_value_def)

subsection \<open>Lemmas about the transcript loop\<close>

lemma transcript_loop_append:
  "transcript_loop (xs @ ys) st = transcript_loop ys (transcript_loop xs st)"
  by (induction xs arbitrary: st) simp_all

lemma transcript_loop_snoc:
  "transcript_loop (xs @ [x]) st = process_block (transcript_loop xs st) x"
  by (simp add: transcript_loop_append)

lemma process_block_outcome:
  "process_block (cs, tr) b =
     (case block_outcome cs b of
        APPENDED en \<Rightarrow> (Some (entry_speaker en), tr @ [en])
      | SKIPPED \<Rightarrow> (case resolve_speaker cs b of Inr cs' \<Rightarrow> cs' | Inl e \<Rightarrow> cs, tr)
      | FAILED e \<Rightarrow> (cs, tr))"
  by (auto simp: process_block_def block_outcome_def split: sum.splits option.splits prod.splits)

lemma snd_process_block:
  "snd (process_block (cs, tr) b) =
     (case block_outcome cs b of APPENDED en \<Rightarrow> tr @ [en] | SKIPPED \<Rightarrow> tr | FAILED e \<Rightarrow> tr)"
  by (simp add: process_block_outcome split: block_state.splits)

lemma process_block_failed:
  "block_outcome cs b = FAILED e \<Longrightarrow> process_block (cs, tr) b = (cs, tr)"
  by (simp add: process_block_outcome)

lemma appended_from_block:
  "block_outcome cs b = APPENDED en \<Longrightarrow> entry_from_block en b"
  by (auto simp: block_outcome_def entry_from_block_def split: sum.splits option.splits prod.splits if_splits)

lemma loop_sources:
  "\<exists>src new. subseq src bs \<and> snd (transcript_loop bs (cs, tr)) = tr @ new
      \<and> list_all2 entry_from_block new src"
proof (induction bs arbitrary: cs tr)
  case Nil
  show ?case by simp
next
  case (Cons b bs)
  show ?case
  proof (cases "block_outcome cs b")
    case (APPENDED en)
    then have step: "process_block (cs, tr) b = (Some (entry_speaker en), tr @ [en])"
      by (simp add: process_block_outcome)
    from Cons.IH [of "Some (entry_speaker en)" "tr @ [en]"]
    obtain src new where s: "subseq src bs"
      and t: "snd (transcript_loop bs (Some (entry_speaker en), tr @ [en])) = (tr @ [en]) @ new"
      and l: "list_all2 entry_from_block new src" by blast
    have "subseq (b # src) (b # bs)" using s by simp
    moreover have "snd (transcript_loop (b # bs) (cs, tr)) = tr @ (en # new)"
      using step t by simp
    moreover have "list_all2 entry_from_block (en # new) (b # src)"
      using l appended_from_block [OF APPENDED] by simp
    ultimately show ?thesis by blast
  next
    case SKIPPED
    then obtain cs' where step: "process_block (cs, tr) b = (cs', tr)"
      by (simp add: process_block_outcome)
    from Cons.IH [of cs' tr]
    obtain src new where s: "subseq src bs"
      and t: "snd (transcript_loop bs (cs', tr)) = tr @ new"
      and l: "list_all2 entry_from_block new src" by blast
    have "subseq src (b # bs)" using s by (rule list_emb_Cons)
    moreover have "snd (transcript_loop (b # bs) (cs, tr)) = tr @ new"
      using step t by simp
    ultimately show ?thesis using l by blast
  next
    case (FAILED e)
    then have step: "process_block (cs, tr) b = (cs, tr)"
      by (simp add: process_block_outcome)
    from Cons.IH [of cs tr]
    obtain src new where s: "subseq src bs"
      and t: "snd (transcript_loop bs (cs, tr)) = tr @ new"
      and l: "list_all2 entry_from_block new src" by blast
    have "subseq src (b # bs)" using s by (rule list_emb_Cons)
    moreover have "snd (transcript_loop (b # bs) (cs, tr)) = tr @ new"
      using step t by simp
    ultimately show ?thesis using l by blast
  qed
qed

lemma subseq_take: "subseq (take n xs) xs"
  by (metis append_take_drop_id prefix_def prefix_imp_subseq)

lemma emits_iff: "emits cs b \<longleftrightarrow> (\<exists>en. block_outcome cs b = APPENDED en)"
  by (auto simp: emits_def has_text_def has_speaker_def text_and_speaker_def block_outcome_def
      split: sum.splits option.splits prod.splits)

lemma length_process_block:
  "length (snd (process_block (cs, tr) b)) = length tr + (if emits cs b then 1 else 0)"
  by (auto simp: emits_iff snd_process_block split: block_state.splits)

lemma loop_length_le: "length (snd (transcript_loop bs (cs, tr))) \<le> length tr + length bs"
proof (induction bs arbitrary: cs tr)
  case Nil show ?case by simp
next
  case (Cons b bs)
  obtain cs' tr' where p: "process_block (cs, tr) b = (cs', tr')" by (cases "process_block (cs, tr) b")
  have "length tr' \<le> length tr + 1" using length_process_block [of cs tr b] p by simp
  moreover have "length (snd (transcript_loop bs (cs', tr'))) \<le> length tr' + length bs" by (rule Cons.IH)
  ultimately show ?case using p by simp
qed

lemma loop_count:
  "length (snd (transcript_loop bs (None, []))) =
     length (filter (\<lambda>i. emits (speaker_before bs i) (bs ! i)) [0..<length bs])"
proof (induction bs rule: rev_induct)
  case Nil show ?case by simp
next
  case (snoc x xs)
  obtain cs tr where s: "transcript_loop xs (None, []) = (cs, tr)" by (cases "transcript_loop xs (None, [])")
  have old: "filter (\<lambda>i. emits (speaker_before (xs @ [x]) i) ((xs @ [x]) ! i)) [0..<length xs]
           = filter (\<lambda>i. emits (speaker_before xs i) (xs ! i)) [0..<length xs]"
    by (rule filter_cong) (auto simp: speaker_before_def nth_append)
  have new: "emits (speaker_before (xs @ [x]) (length xs)) ((xs @ [x]) ! length xs) = emits cs x"
    using s by (simp add: speaker_before_def)
  have "length (snd (transcript_loop (xs @ [x]) (None, []))) = length tr + (if emits cs x then 1 else 0)"
    using s by (simp add: transcript_loop_snoc length_process_block)
  also have "length tr = length (filter (\<lambda>i. emits (speaker_before xs i) (xs ! i)) [0..<length xs])"
    using snoc.IH s by simp
  finally show ?case using old new by simp
qed

lemma emitted_entry:
  assumes "process_block (cs, tr) b = (cs', tr @ [e])"
  shows "cs' = Some (entry_speaker e) \<and> resolve_speaker cs b = Inr (Some (entry_speaker e))
         \<and> entry_speaker e \<noteq> [] \<and> block_outcome cs b = APPENDED e"
  using assms
  by (auto simp: process_block_def block_outcome_def split: sum.splits option.splits prod.splits if_splits)

lemma resolve_own_label:
  "own_label b = Some l \<Longrightarrow> resolve_speaker cs b = Inr s \<Longrightarrow> s = Some (py_strip l)"
  by (auto simp: own_label_def resolve_speaker_def split: sum.splits option.splits if_splits)

lemma resolve_own_label_ok:
  "own_label b = Some l \<Longrightarrow> resolve_speaker cs b = Inr (Some (py_strip l))"
  by (auto simp: own_label_def resolve_speaker_def split: sum.splits option.splits if_splits)

lemma resolve_carried:
  "own_label b = None \<Longrightarrow> str_truthy cs \<Longrightarrow> resolve_speaker cs b = Inr s \<Longrightarrow> s = cs"
  by (auto simp: own_label_def resolve_speaker_def fallback_speaker_def
      split: sum.splits option.splits if_splits)

lemma resolve_fallback:
  "own_label b = None \<Longrightarrow> \<not> str_truthy cs \<Longrightarrow> resolve_speaker cs b = Inr (Some s) \<Longrightarrow> s \<noteq> []
     \<Longrightarrow> \<exists>x rest. page_speakers b = Inr (x # rest) \<and> s = py_strip x"
  by (auto simp: own_label_def resolve_speaker_def fallback_speaker_def
      split: sum.splits option.splits if_splits list.splits)

lemma carry_inv_step:
  assumes inv: "carry_inv (cs, tr)" and nl: "\<not> labelled_without_entry b"
  shows "carry_inv (process_block (cs, tr) b)"
proof (cases "block_outcome cs b")
  case (APPENDED en)
  then have "process_block (cs, tr) b = (Some (entry_speaker en), tr @ [en])"
    by (simp add: process_block_outcome)
  moreover from this have "entry_speaker en \<noteq> []" using emitted_entry by blast
  ultimately show ?thesis using inv by (simp add: carry_inv_def)
next
  case (FAILED e)
  then show ?thesis using inv by (simp add: process_block_outcome)
next
  case SKIPPED
  then obtain t start stop cs' where rb: "read_block b = Inr (t, start, stop)"
    and rs: "resolve_speaker cs b = Inr cs'"
    and sk: "cs' = None \<or> t = [] \<or> (\<exists>s. cs' = Some s \<and> s = [])"
    by (auto simp: block_outcome_def split: sum.splits option.splits prod.splits if_splits)
  have step: "process_block (cs, tr) b = (cs', tr)"
    using SKIPPED rs by (simp add: process_block_outcome)
  show ?thesis
  proof (cases "own_label b")
    case (Some l)
    then have "cs' = Some (py_strip l)" using rs resolve_own_label by blast
    with sk have "t = [] \<or> py_strip l = []" by auto
    with rb Some have "labelled_without_entry b" by (simp add: labelled_without_entry_def)
    with nl show ?thesis by simp
  next
    case None
    show ?thesis
    proof (cases "str_truthy cs")
      case True
      then have "cs' = cs" using None rs resolve_carried by blast
      with step inv show ?thesis by simp
    next
      case False
      have "tr = []"
      proof (rule ccontr)
        assume ne: "tr \<noteq> []"
        then have c: "cs = Some (entry_speaker (last tr))" using inv by (simp add: carry_inv_def)
        have "last tr \<in> set tr" using ne by simp
        then have "entry_speaker (last tr) \<noteq> []" using inv by (auto simp: carry_inv_def list_all_iff)
        with c False show False by simp
      qed
      with step show ?thesis by (simp add: carry_inv_def)
    qed
  qed
qed

lemma carry_inv_loop:
  "carry_inv st \<Longrightarrow> list_all (\<lambda>b. \<not> labelled_without_entry b) bs \<Longrightarrow> carry_inv (transcript_loop bs st)"
proof (induction bs arbitrary: st)
  case Nil then show ?case by simp
next
  case (Cons b bs)
  obtain cs tr where st: "st = (cs, tr)" by (cases st)
  from Cons.prems have "carry_inv (process_block st b)" using carry_inv_step st by simp
  with Cons show ?case by simp
qed

lemma labelled_sets_speaker:
  assumes "read_block d = Inr x" and "own_label d = Some l"
  shows "fst (process_block (cs, tr) d) = Some (py_strip l)"
  using assms resolve_own_label_ok [OF assms(2), of cs]
  by (auto simp: process_block_def split: sum.splits option.splits prod.splits if_splits)

lemma declares_label_Some:
  "declares_label d = Some l \<Longrightarrow> (\<exists>x. read_block d = Inr x) \<and> own_label d = Some l"
  by (auto simp: declares_label_def split: sum.splits)

lemma undeclared_step:
  assumes "declares_label m = None"
  shows "fst (process_block (cs, tr) m) = cs
       \<or> (\<not> str_truthy cs
          \<and> (\<exists>s rest. page_speakers m = Inr (s # rest)
                \<and> fst (process_block (cs, tr) m) = Some (py_strip s)))"
proof (cases "read_block m")
  case (Inl e)
  then show ?thesis by (simp add: process_block_def)
next
  case (Inr x)
  with assms have nl: "own_label m = None" by (simp add: declares_label_def)
  show ?thesis
  proof (cases "resolve_speaker cs m")
    case (Inl e)
    then show ?thesis
      by (auto simp: process_block_def split: sum.splits option.splits prod.splits)
  next
    case r: (Inr s)
    have f: "fst (process_block (cs, tr) m) = s"
      using Inr r by (auto simp: process_block_def split: sum.splits option.splits prod.splits)
    show ?thesis
    proof (cases "str_truthy cs")
      case True
      then have "s = cs" using nl r resolve_carried by blast
      with f show ?thesis by simp
    next
      case False
      have "s = cs \<or> (\<exists>x rest. page_speakers m = Inr (x # rest) \<and> s = Some (py_strip x))"
        using nl r False
        by (auto simp: own_label_def resolve_speaker_def fallback_speaker_def
            split: sum.splits option.splits if_splits list.splits)
      with f False show ?thesis by auto
    qed
  qed
qed

lemma undeclared_run:
  "list_all (\<lambda>m. declares_label m = None) mid \<Longrightarrow>
     fst (transcript_loop mid (cs, tr)) = cs
     \<or> (\<not> str_truthy cs
        \<and> (\<exists>m \<in> set mid. \<exists>s rest. page_speakers m = Inr (s # rest)
              \<and> fst (transcript_loop mid (cs, tr)) = Some (py_strip s)))"
proof (induction mid arbitrary: cs tr)
  case Nil
  show ?case by simp
next
  case (Cons m mid)
  obtain cs1 tr1 where p: "process_block (cs, tr) m = (cs1, tr1)"
    by (cases "process_block (cs, tr) m")
  from Cons.prems have dm: "declares_label m = None"
    and rest: "list_all (\<lambda>m. declares_label m = None) mid" by simp_all
  have loop: "transcript_loop (m # mid) (cs, tr) = transcript_loop mid (cs1, tr1)"
    using p by simp
  from undeclared_step [OF dm, of cs tr] p
  have step: "cs1 = cs
       \<or> (\<not> str_truthy cs \<and> (\<exists>s rest. page_speakers m = Inr (s # rest) \<and> cs1 = Some (py_strip s)))"
    by simp
  from Cons.IH [OF rest, of cs1 tr1]
  have ih: "fst (transcript_loop mid (cs1, tr1)) = cs1
     \<or> (\<not> str_truthy cs1
        \<and> (\<exists>m \<in> set mid. \<exists>s rest. page_speakers m = Inr (s # rest)
              \<and> fst (transcript_loop mid (cs1, tr1)) = Some (py_strip s)))" .
  from step show ?case
  proof
    assume same: "cs1 = cs"
    from ih show ?thesis
    proof
      assume "fst (transcript_loop mid (cs1, tr1)) = cs1"
      with same loop show ?thesis by simp
    next
      assume "\<not> str_truthy cs1
        \<and> (\<exists>m \<in> set mid. \<exists>s rest. page_speakers m = Inr (s # rest)
              \<and> fst (transcript_loop mid (cs1, tr1)) = Some (py_strip s))"
      then obtain m' s rest where "\<not> str_truthy cs1" and "m' \<in> set mid"
        and "page_speakers m' = Inr (s # rest)"
        and "fst (transcript_loop mid (cs1, tr1)) = Some (py_strip s)" by blast
      with same loop have "\<not> str_truthy cs" and "m' \<in> set (m # mid)"
        and "page_speakers m' = Inr (s # rest)"
        and "fst (transcript_loop (m # mid) (cs, tr)) = Some (py_strip s)" by simp_all
      then show ?thesis by blast
    qed
  next
    assume "\<not> str_truthy cs
        \<and> (\<exists>s rest. page_speakers m = Inr (s # rest) \<and> cs1 = Some (py_strip s))"
    then obtain s rest where f: "\<not> str_truthy cs" and pm: "page_speakers m = Inr (s # rest)"
      and c1: "cs1 = Some (py_strip s)" by blast
    from ih show ?thesis
    proof
      assume "fst (transcript_loop mid (cs1, tr1)) = cs1"
      with c1 loop have "fst (transcript_loop (m # mid) (cs, tr)) = Some (py_strip s)" by simp
      moreover have "m \<in> set (m # mid)" by simp
      ultimately show ?thesis using f pm by blast
    next
      assume "\<not> str_truthy cs1
        \<and> (\<exists>m \<in> set mid. \<exists>s rest. page_speakers m = Inr (s # rest)
              \<and> fst (transcript_loop mid (cs1, tr1)) = Some (py_strip s))"
      then obtain m' s' rest' where "m' \<in> set mid"
        and "page_speakers m' = Inr (s' # rest')"
        and "fst (transcript_loop mid (cs1, tr1)) = Some (py_strip s')" by blast
      with loop have "m' \<in> set (m # mid)" and "page_speakers m' = Inr (s' # rest')"
        and "fst (transcript_loop (m # mid) (cs, tr)) = Some (py_strip s')" by simp_all
      then show ?thesis using f by blast
    qed
  qed
qed

lemma undeclared_run_keeps_speaker:
  "list_all (\<lambda>m. declares_label m = None) mid \<Longrightarrow> str_truthy cs
     \<Longrightarrow> fst (transcript_loop mid (cs, tr)) = cs"
  using undeclared_run [of mid cs tr] by auto

subsection \<open>Lemmas about a whole run\<close>

lemma no_url_returns_early:
  assumes "chrome w = Inr dr" and "get_case_metadata w case_year case_name = Inr m"
      and "\<not> truthy (dict_get m ''oral_argument_url'')"
  shows "get_transcript_with_selenium w case_year case_name full_transcript =
           \<lparr>raised = None, reported = None, session_quit = True, output_file = None\<rparr>"
  using assms by (simp add: get_transcript_with_selenium_def transcript_body_def Let_def)

lemma upt_max_retries: "[0..<max_retries] = [0, 1, 2]"
  by (simp add: max_retries_def upt_rec)

lemma no_blocks_after_retries:
  assumes "\<forall>attempt < max_retries. find_elements attempt = Inr []"
  shows "get_blocks find_elements = Inl BlocksNotLoaded"
proof -
  have "find_elements 0 = Inr []" "find_elements 1 = Inr []" "find_elements 2 = Inr []"
    using assms by (simp_all add: max_retries_def)
  then show ?thesis by (simp add: get_blocks_def upt_max_retries)
qed

lemma get_blocks_nonempty: "get_blocks find_elements = Inr blocks \<Longrightarrow> blocks \<noteq> []"
  by (auto simp: get_blocks_def split: sum.splits if_splits)

lemma saved_transcript:
  "save_result w m entries full_transcript = Inr (filename, r) \<Longrightarrow> result_transcript r = entries"
  by (auto simp: save_result_def Let_def split: option.splits pyval.splits sum.splits)

lemma body_transcript:
  assumes "transcript_body w case_year case_name full_transcript = Inr (Some (filename, r))"
  shows "\<exists>blocks. result_transcript r = build_transcript full_transcript blocks"
proof -
  from assms obtain m blocks where
    "save_result w m (build_transcript full_transcript blocks) full_transcript = Inr (filename, r)"
    by (auto simp: transcript_body_def Let_def split: sum.splits pyval.splits if_splits)
  then have "result_transcript r = build_transcript full_transcript blocks"
    by (rule saved_transcript)
  then show ?thesis by blast
qed

lemma written_transcript:
  assumes "output_file (get_transcript_with_selenium w case_year case_name full_transcript)
             = Some (filename, r)"
  shows "\<exists>blocks. result_transcript r = build_transcript full_transcript blocks"
proof -
  from assms have "transcript_body w case_year case_name full_transcript = Inr (Some (filename, r))"
    by (auto simp: get_transcript_with_selenium_def Let_def split: sum.splits)
  then show ?thesis by (rule body_transcript)
qed

lemma sample_at_most_three: "length (build_transcript False blocks) \<le> 3"
proof -
  have "length (snd (transcript_loop (take 3 blocks) (None, [])))
          \<le> length ([] :: entry list) + length (take 3 blocks)"
    by (rule loop_length_le)
  then show ?thesis by (simp add: build_transcript_def limit_blocks_def)
qed

section \<open>The claims\<close>

subsection \<open>C1: isolation of field failures in the metadata extractor\<close>

text \<open>
  Claim C1, as amended.  Once the target entry is found, \<^verbatim>\<open>get_case_metadata\<close>
  returns a dictionary and never raises.  Failures are isolated per \<^verbatim>\<open>try\<close> group,
  not per field.  When the description of the listing entry cannot be read, or the
  detail page cannot be loaded, the extraction ends with the fields read so far.
  Otherwise each group of the detail page (parties; advocates; facts; question;
  conclusion; oral-argument URL; citation) is extracted whatever the lookups of the
  other groups do: the value stored under a key is given by the lookups of its own
  group alone.  There is one exception, which the statement makes for each key
  separately: the timeline loop stores its dates under keys read from the page (the
  trimmed, lower-cased header texts), so a key that is spelled like a timeline header
  of the page holds what the timeline loop left there.  A key whose group failed at
  or before it is left out of the dictionary (reading it with \<^verbatim>\<open>get\<close> gives
  \<^verbatim>\<open>None\<close>); only \<^verbatim>\<open>oral_argument_url\<close>, and \<^verbatim>\<open>citation\<close> when the timeline section
  is found, are stored as \<^verbatim>\<open>None\<close>.  Within the parties group a failure to read the
  petitioner also drops the respondent.
\<close>

theorem field_groups_isolated:
  assumes listing: "listing_page w (listing_url case_year) = Inr items"
      and target: "find_target_case case_name items = Some c"
      and link: "h2_a c = Inr a"
  shows "get_case_metadata w case_year case_name = Inr (extract_metadata w c)
    \<and> (description_el c = Inl e \<longrightarrow>
          extract_metadata w c =
            [(''title'', PStr (py_strip (link_text a))), (''url'', attr_val (link_href a))])
    \<and> (description_el c = Inr d \<and> driver_get_case w (link_href a) = Inl e \<longrightarrow>
          extract_metadata w c =
            [(''title'', PStr (py_strip (link_text a))), (''url'', attr_val (link_href a)),
             (''description'', PStr (py_strip d))])
    \<and> (description_el c = Inr d \<and> driver_get_case w (link_href a) = Inr page \<longrightarrow>
        (''title'' \<notin> set (timeline_keys page) \<longrightarrow>
           map_of (extract_metadata w c) ''title'' = Some (PStr (py_strip (link_text a))))
      \<and> (''url'' \<notin> set (timeline_keys page) \<longrightarrow>
           map_of (extract_metadata w c) ''url'' = Some (attr_val (link_href a)))
      \<and> (''description'' \<notin> set (timeline_keys page) \<longrightarrow>
           map_of (extract_metadata w c) ''description'' = Some (PStr (py_strip d)))
      \<and> (''petitioner'' \<notin> set (timeline_keys page) \<longrightarrow>
           map_of (extract_metadata w c) ''petitioner'' =
             (case parties page of
                Inl e \<Rightarrow> None
              | Inr row \<Rightarrow>
                  (case petitioner_div row of
                     Inl e \<Rightarrow> None
                   | Inr p \<Rightarrow> Some (PStr (py_strip (py_replace ''Petitioner'' [] p))))))
      \<and> (''respondent'' \<notin> set (timeline_keys page) \<longrightarrow>
           map_of (extract_metadata w c) ''respondent'' =
             (case parties page of
                Inl e \<Rightarrow> None
              | Inr row \<Rightarrow>
                  (case petitioner_div row of
                     Inl e \<Rightarrow> None
                   | Inr p \<Rightarrow>
                       (case respondent_div row of
                          Inl e \<Rightarrow> None
                        | Inr r \<Rightarrow> Some (PStr (py_strip (py_replace ''Respondent'' [] r)))))))
      \<and> (''advocates'' \<notin> set (timeline_keys page) \<longrightarrow>
           map_of (extract_metadata w c) ''advocates'' =
             (case advocates_section page of
                Inl e \<Rightarrow> None
              | Inr els \<Rightarrow>
                  (case collect_advocates els [] of
                     Inl e \<Rightarrow> None
                   | Inr advocates \<Rightarrow> Some (PAdvocates advocates))))
      \<and> (''facts'' \<notin> set (timeline_keys page) \<longrightarrow>
           map_of (extract_metadata w c) ''facts'' =
             (case facts_section page of
                Inl e \<Rightarrow> None
              | Inr ps \<Rightarrow> Some (PStr (paragraphs_text ps))))
      \<and> (''question'' \<notin> set (timeline_keys page) \<longrightarrow>
           map_of (extract_metadata w c) ''question'' =
             (case question_section page of
                Inl e \<Rightarrow> None
              | Inr ps \<Rightarrow> Some (PStr (paragraphs_text ps))))
      \<and> (''conclusion'' \<notin> set (timeline_keys page) \<longrightarrow>
           map_of (extract_metadata w c) ''conclusion'' =
             (case conclusion_section page of
                Inl e \<Rightarrow> None
              | Inr ps \<Rightarrow> Some (PStr (paragraphs_text ps))))
      \<and> (''oral_argument_url'' \<notin> set (timeline_keys page) \<longrightarrow>
           map_of (extract_metadata w c) ''oral_argument_url'' =
             Some (case oral_argument_primary page of
                     Inr u \<Rightarrow> attr_val u
                   | Inl e \<Rightarrow>
                       (case oral_argument_alternative page of
                          Inr u \<Rightarrow> attr_val u
                        | Inl e2 \<Rightarrow> PNone)))
      \<and> (''citation'' \<notin> set (timeline_keys page) \<longrightarrow>
           map_of (extract_metadata w c) ''citation'' =
             (case timeline page of
                Inl e \<Rightarrow> None
              | Inr sec \<Rightarrow>
                  Some (case citation_span sec of
                          Inr t \<Rightarrow> PStr (py_strip t)
                        | Inl e \<Rightarrow> PNone))))"
proof (intro conjI impI)
  show "get_case_metadata w case_year case_name = Inr (extract_metadata w c)"
    using listing target by (simp add: get_case_metadata_def)
next
  assume "description_el c = Inl e"
  then show "extract_metadata w c =
            [(''title'', PStr (py_strip (link_text a))), (''url'', attr_val (link_href a))]"
    using link by (simp add: extract_metadata_def Let_def dict_set_def)
next
  assume "description_el c = Inr d \<and> driver_get_case w (link_href a) = Inl e"
  then show "extract_metadata w c =
            [(''title'', PStr (py_strip (link_text a))), (''url'', attr_val (link_href a)),
             (''description'', PStr (py_strip d))]"
    using link by (simp add: extract_metadata_def Let_def dict_set_def)
next
  note maps = extract_details_def timeline_frame timeline_citation oral_map conclusion_map
    question_map facts_map advocates_map case_details_never parties_frame parties_petitioner
    parties_respondent entry_fields
  assume r: "description_el c = Inr d \<and> driver_get_case w (link_href a) = Inr page"
  then have em: "extract_metadata w c =
           extract_details page
             (dict_set ''description'' (PStr (py_strip d))
               (dict_set ''url'' (attr_val (link_href a))
                 (dict_set ''title'' (PStr (py_strip (link_text a))) [])))"
    using link extract_metadata_reached by simp
  {
    assume tk: "''title'' \<notin> set (timeline_keys page)"
    show "map_of (extract_metadata w c) ''title'' = Some (PStr (py_strip (link_text a)))"
      by (simp add: em maps tk)
  }
  {
    assume tk: "''url'' \<notin> set (timeline_keys page)"
    show "map_of (extract_metadata w c) ''url'' = Some (attr_val (link_href a))"
      by (simp add: em maps tk)
  }
  {
    assume tk: "''description'' \<notin> set (timeline_keys page)"
    show "map_of (extract_metadata w c) ''description'' = Some (PStr (py_strip d))"
      by (simp add: em maps tk)
  }
  {
    assume tk: "''petitioner'' \<notin> set (timeline_keys page)"
    show "map_of (extract_metadata w c) ''petitioner'' =
             (case parties page of
                Inl e \<Rightarrow> None
              | Inr row \<Rightarrow>
                  (case petitioner_div row of
                     Inl e \<Rightarrow> None
                   | Inr p \<Rightarrow> Some (PStr (py_strip (py_replace ''Petitioner'' [] p)))))"
      by (simp add: em maps tk split: sum.splits)
  }
  {
    assume tk: "''respondent'' \<notin> set (timeline_keys page)"
    show "map_of (extract_metadata w c) ''respondent'' =
             (case parties page of
                Inl e \<Rightarrow> None
              | Inr row \<Rightarrow>
                  (case petitioner_div row of
                     Inl e \<Rightarrow> None
                   | Inr p \<Rightarrow>
                       (case respondent_div row of
                          Inl e \<Rightarrow> None
                        | Inr r \<Rightarrow> Some (PStr (py_strip (py_replace ''Respondent'' [] r))))))"
      by (simp add: em maps tk split: sum.splits)
  }
  {
    assume tk: "''advocates'' \<notin> set (timeline_keys page)"
    show "map_of (extract_metadata w c) ''advocates'' =
             (case advocates_section page of
                Inl e \<Rightarrow> None
              | Inr els \<Rightarrow>
                  (case collect_advocates els [] of
                     Inl e \<Rightarrow> None
                   | Inr advocates \<Rightarrow> Some (PAdvocates advocates)))"
      by (simp add: em maps tk split: sum.splits)
  }
  {
    assume tk: "''facts'' \<notin> set (timeline_keys page)"
    show "map_of (extract_metadata w c) ''facts'' =
             (case facts_section page of
                Inl e \<Rightarrow> None
              | Inr ps \<Rightarrow> Some (PStr (paragraphs_text ps)))"
      by (simp add: em maps tk split: sum.splits)
  }
  {
    assume tk: "''question'' \<notin> set (timeline_keys page)"
    show "map_of (extract_metadata w c) ''question'' =
             (case question_section page of
                Inl e \<Rightarrow> None
              | Inr ps \<Rightarrow> Some (PStr (paragraphs_text ps)))"
      by (simp add: em maps tk split: sum.splits)
  }
  {
    assume tk: "''conclusion'' \<notin> set (timeline_keys page)"
    show "map_of (extract_metadata w c) ''conclusion'' =
             (case conclusion_section page of
                Inl e \<Rightarrow> None
              | Inr ps \<Rightarrow> Some (PStr (paragraphs_text ps)))"
      by (simp add: em maps tk split: sum.splits)
  }
  {
    assume tk: "''oral_argument_url'' \<notin> set (timeline_keys page)"
    show "map_of (extract_metadata w c) ''oral_argument_url'' =
             Some (case oral_argument_primary page of
                     Inr u \<Rightarrow> attr_val u
                   | Inl e \<Rightarrow>
                       (case oral_argument_alternative page of
                          Inr u \<Rightarrow> attr_val u
                        | Inl e2 \<Rightarrow> PNone))"
      by (simp add: em maps tk oral_argument_value_def split: sum.splits)
  }
  {
    assume tk: "''citation'' \<notin> set (timeline_keys page)"
    show "map_of (extract_metadata w c) ''citation'' =
             (case timeline page of
                Inl e \<Rightarrow> None
              | Inr sec \<Rightarrow>
                  Some (case citation_span sec of
                          Inr t \<Rightarrow> PStr (py_strip t)
                        | Inl e \<Rightarrow> PNone))"
      by (simp add: em maps tk split: sum.splits)
  }
qed

text \<open>
  The theorem at a page on which the petitioner cannot be found: the facts, the
  advocates, the oral-argument URL and the citation are extracted all the same, and
  the petitioner is left out.
\<close>

theorem field_groups_isolated_witness:
  "get_case_metadata (demo_web demo_listing page_without_petitioner never_blocks) ''2023'' ''Acheson''
     = Inr (extract_metadata (demo_web demo_listing page_without_petitioner never_blocks) acheson_item)
   \<and> map_of (extract_metadata (demo_web demo_listing page_without_petitioner never_blocks) acheson_item)
        ''petitioner'' = None
   \<and> map_of (extract_metadata (demo_web demo_listing page_without_petitioner never_blocks) acheson_item)
        ''facts'' =
        Some (PStr (''Laufer sued Acheson Hotels.'' @ [CHR 0x0A, CHR 0x0A]
                      @ ''The district court dismissed.''))
   \<and> map_of (extract_metadata (demo_web demo_listing page_without_petitioner never_blocks) acheson_item)
        ''advocates'' =
        Some (PAdvocates [\<lparr>adv_name = ''Adam G. Unikowsky'', adv_role = ''for the Petitioner''\<rparr>])
   \<and> map_of (extract_metadata (demo_web demo_listing page_without_petitioner never_blocks) acheson_item)
        ''oral_argument_url'' = Some (PStr audio_url)
   \<and> map_of (extract_metadata (demo_web demo_listing page_without_petitioner never_blocks) acheson_item)
        ''citation'' = Some (PStr ''601 US _ (2023)'')"
proof -
  let ?w = "demo_web demo_listing page_without_petitioner never_blocks"
  have h1: "listing_page ?w (listing_url ''2023'') = Inr demo_listing"
    by (simp add: demo_web_def listing_url_def)
  have h2: "find_target_case ''Acheson'' demo_listing = Some acheson_item"
    by code_simp
  have h3: "h2_a acheson_item = Inr acheson_link"
    by (simp add: acheson_item_def)
  have h4: "description_el acheson_item = Inr ''A case about standing to sue under the ADA.''
      \<and> driver_get_case ?w (link_href acheson_link) = Inr page_without_petitioner"
    by code_simp
  have k: "''petitioner'' \<notin> set (timeline_keys page_without_petitioner)"
    "''facts'' \<notin> set (timeline_keys page_without_petitioner)"
    "''advocates'' \<notin> set (timeline_keys page_without_petitioner)"
    "''oral_argument_url'' \<notin> set (timeline_keys page_without_petitioner)"
    "''citation'' \<notin> set (timeline_keys page_without_petitioner)"
    by code_simp+
  note t = field_groups_isolated [OF h1 h2 h3,
      of no_such_element "''A case about standing to sue under the ADA.''" page_without_petitioner]
  from t h4 k have
    "get_case_metadata ?w ''2023'' ''Acheson'' = Inr (extract_metadata ?w acheson_item)
     \<and> map_of (extract_metadata ?w acheson_item) ''petitioner'' =
          (case parties page_without_petitioner of
             Inl e \<Rightarrow> None
           | Inr row \<Rightarrow>
               (case petitioner_div row of
                  Inl e \<Rightarrow> None
                | Inr p \<Rightarrow> Some (PStr (py_strip (py_replace ''Petitioner'' [] p)))))
     \<and> map_of (extract_metadata ?w acheson_item) ''facts'' =
          (case facts_section page_without_petitioner of
             Inl e \<Rightarrow> None
           | Inr ps \<Rightarrow> Some (PStr (paragraphs_text ps)))
     \<and> map_of (extract_metadata ?w acheson_item) ''advocates'' =
          (case advocates_section page_without_petitioner of
             Inl e \<Rightarrow> None
           | Inr els \<Rightarrow>
               (case collect_advocates els [] of
                  Inl e \<Rightarrow> None
                | Inr advocates \<Rightarrow> Some (PAdvocates advocates)))
     \<and> map_of (extract_metadata ?w acheson_item) ''oral_argument_url'' =
          Some (case oral_argument_primary page_without_petitioner of
                  Inr u \<Rightarrow> attr_val u
                | Inl e \<Rightarrow>
                    (case oral_argument_alternative page_without_petitioner of
                       Inr u \<Rightarrow> attr_val u
                     | Inl e2 \<Rightarrow> PNone))
     \<and> map_of (extract_metadata ?w acheson_item) ''citation'' =
          (case timeline page_without_petitioner of
             Inl e \<Rightarrow> None
           | Inr sec \<Rightarrow>
               Some (case citation_span sec of Inr t \<Rightarrow> PStr (py_strip t) | Inl e \<Rightarrow> PNone))"
    by blast
  then show ?thesis
    by (simp add: page_without_petitioner_def demo_page_def paragraphs_text_def py_strip_def
        is_space_def)
qed

text \<open>
  Claim C1 as stated fails.  On an entry whose description cannot be read, nothing of
  the detail page is extracted, although the page holds every field; on a page where
  only the petitioner cannot be found, the respondent, which the page shows, is not
  extracted either, and neither key is stored as \<^verbatim>\<open>None\<close>; and on a page with a
  timeline item headed \<^verbatim>\<open>Facts\<close> whose date cannot be read, the facts, which were
  read, end as \<^verbatim>\<open>None\<close>.
\<close>

theorem field_failure_aborts_group:
  "get_case_metadata (demo_web [acheson_item_bare] demo_page never_blocks) ''2023'' ''Acheson'' =
     Inr [(''title'', PStr ''Acheson Hotels, LLC v. Laufer''),
          (''url'', PStr ''https://www.oyez.org/cases/2023/22-429'')]
   \<and> parties page_without_petitioner =
       Inr \<lparr>petitioner_div = Inl no_such_element,
            respondent_div = Inr ''Respondent Deborah Laufer''\<rparr>
   \<and> get_case_metadata (demo_web demo_listing page_without_petitioner never_blocks)
        ''2023'' ''Acheson'' =
     Inr [(''title'', PStr ''Acheson Hotels, LLC v. Laufer''),
          (''url'', PStr ''https://www.oyez.org/cases/2023/22-429''),
          (''description'', PStr ''A case about standing to sue under the ADA.''),
          (''advocates'',
           PAdvocates [\<lparr>adv_name = ''Adam G. Unikowsky'', adv_role = ''for the Petitioner''\<rparr>]),
          (''facts'',
           PStr (''Laufer sued Acheson Hotels.'' @ [CHR 0x0A, CHR 0x0A]
                   @ ''The district court dismissed.'')),
          (''question'', PStr ''Does a tester have standing?''),
          (''conclusion'', PStr ''The case is moot.''),
          (''oral_argument_url'', PStr audio_url),
          (''citation'', PStr ''601 US _ (2023)''),
          (''granted'', PStr ''Mar 27, 2023''),
          (''argued'', PStr ''Oct 4, 2023''),
          (''decided'', PStr ''Dec 5, 2023'')]
   \<and> facts_section page_with_facts_header =
       Inr [''Laufer sued Acheson Hotels. '', ''The district court dismissed.'']
   \<and> map_of (extract_metadata (demo_web demo_listing page_with_facts_header never_blocks) acheson_item)
        ''facts'' = Some PNone"
  by code_simp

subsection \<open>C3: the first matching entry wins\<close>

text \<open>
  Claim C3.  The extractor selects the first entry, in listing order, whose title
  contains case-insensitively one of the whitespace-delimited tokens of the case-name
  fragment: \<open>c\<close> is selected exactly when it matches and no entry before it does.
  The metadata are then those of that entry.  When no entry of the listing matches,
  and only then, the extractor fails with the not-found error of line 63.
\<close>

theorem first_match_wins:
  "(find_target_case case_name items = Some c \<longleftrightarrow>
     (\<exists>before after. items = before @ c # after \<and> title_matches case_name c
        \<and> (\<forall>x \<in> set before. \<not> title_matches case_name x)))
   \<and> (listing_page w (listing_url case_year) = Inr items \<longrightarrow>
        (get_case_metadata w case_year case_name = Inl (CaseNotFound case_name)
           \<longleftrightarrow> (\<forall>x \<in> set items. \<not> title_matches case_name x))
        \<and> (find_target_case case_name items = Some c \<longrightarrow>
              get_case_metadata w case_year case_name = Inr (extract_metadata w c)))"
proof (intro conjI impI)
  show "find_target_case case_name items = Some c \<longleftrightarrow>
     (\<exists>before after. items = before @ c # after \<and> title_matches case_name c
        \<and> (\<forall>x \<in> set before. \<not> title_matches case_name x))"
    by (rule find_target_case_Some_iff)
next
  assume l: "listing_page w (listing_url case_year) = Inr items"
  show "get_case_metadata w case_year case_name = Inl (CaseNotFound case_name)
           \<longleftrightarrow> (\<forall>x \<in> set items. \<not> title_matches case_name x)"
    using l find_target_case_None_iff [of case_name items]
    by (cases "find_target_case case_name items") (simp_all add: get_case_metadata_def)
next
  assume "listing_page w (listing_url case_year) = Inr items"
    and "find_target_case case_name items = Some c"
  then show "get_case_metadata w case_year case_name = Inr (extract_metadata w c)"
    by (simp add: get_case_metadata_def)
qed

text \<open>
  In the example listing the fragment \<^verbatim>\<open>Acheson marshall\<close> selects
  \<^verbatim>\<open>Culley v. Marshall\<close>, which stands before \<^verbatim>\<open>Acheson Hotels, LLC v. Laufer\<close>,
  although \<^verbatim>\<open>Acheson\<close> is the first token; the fragment \<^verbatim>\<open>Dobbs\<close> matches nothing.
\<close>

theorem first_match_wins_witness:
  "find_target_case ''Acheson marshall'' demo_listing = Some culley_item
   \<and> title_matches ''Acheson marshall'' culley_item
   \<and> get_case_metadata (demo_web demo_listing demo_page never_blocks) ''2023'' ''Acheson marshall''
       = Inr (extract_metadata (demo_web demo_listing demo_page never_blocks) culley_item)
   \<and> get_case_metadata (demo_web demo_listing demo_page never_blocks) ''2023'' ''Dobbs''
       = Inl (CaseNotFound ''Dobbs'')
   \<and> \<not> (\<exists>x \<in> set demo_listing. title_matches ''Dobbs'' x)"
proof -
  let ?w = "demo_web demo_listing demo_page never_blocks"
  have l: "listing_page ?w (listing_url ''2023'') = Inr demo_listing"
    by (simp add: demo_web_def listing_url_def)
  have f: "find_target_case ''Acheson marshall'' demo_listing = Some culley_item"
    by code_simp
  have n: "get_case_metadata ?w ''2023'' ''Dobbs'' = Inl (CaseNotFound ''Dobbs'')"
    by code_simp
  note t1 = first_match_wins [of "''Acheson marshall''" demo_listing culley_item ?w "''2023''"]
  note t2 = first_match_wins [of "''Dobbs''" demo_listing culley_item ?w "''2023''"]
  from t1 f l have "title_matches ''Acheson marshall'' culley_item"
    and "get_case_metadata ?w ''2023'' ''Acheson marshall'' = Inr (extract_metadata ?w culley_item)"
    by blast+
  moreover from t2 l n have "\<not> (\<exists>x \<in> set demo_listing. title_matches ''Dobbs'' x)"
    by blast
  ultimately show ?thesis using f n by blast
qed

subsection \<open>C4: the oral-argument URL and the early return\<close>

text \<open>
  Claim C4, as amended.  The lookup stores what the primary selector finds, and
  consults the looser selector only when the primary one raises; when both raise, the
  lookup sets the key \<^verbatim>\<open>oral_argument_url\<close> to \<^verbatim>\<open>None\<close>.  Whenever the metadata
  returned hold \<^verbatim>\<open>None\<close> or an empty text under that key, the run returns early:
  nothing is raised, nothing is reported by the handler, no file is written, and the
  driver is quit.  That is the case when both selectors raise on the detail page and
  no timeline item of the page is headed \<^verbatim>\<open>oral_argument_url\<close>; the timeline loop,
  which runs after the lookup, stores its dates under keys read from the page and
  would overwrite the key.
\<close>

theorem no_oral_argument_url_no_transcript:
  "(oral_argument_primary page = Inr u \<longrightarrow>
      get_oral_argument_url page m = dict_set ''oral_argument_url'' (attr_val u) m)
 \<and> (oral_argument_primary page = Inl e \<and> oral_argument_alternative page = Inr u \<longrightarrow>
      get_oral_argument_url page m = dict_set ''oral_argument_url'' (attr_val u) m)
 \<and> (oral_argument_primary page = Inl e \<and> oral_argument_alternative page = Inl e2 \<longrightarrow>
      get_oral_argument_url page m = dict_set ''oral_argument_url'' PNone m
    \<and> map_of (get_oral_argument_url page m) ''oral_argument_url'' = Some PNone
    \<and> (chrome w = Inr driver \<and> listing_page w (listing_url case_year) = Inr items
        \<and> find_target_case case_name items = Some c \<and> h2_a c = Inr a
        \<and> description_el c = Inr d \<and> driver_get_case w (link_href a) = Inr page
        \<and> ''oral_argument_url'' \<notin> set (timeline_keys page) \<longrightarrow>
        get_transcript_with_selenium w case_year case_name full_transcript =
          \<lparr>raised = None, reported = None, session_quit = True, output_file = None\<rparr>))
 \<and> (chrome w = Inr driver \<and> get_case_metadata w case_year case_name = Inr md
      \<and> \<not> truthy (dict_get md ''oral_argument_url'') \<longrightarrow>
      get_transcript_with_selenium w case_year case_name full_transcript =
        \<lparr>raised = None, reported = None, session_quit = True, output_file = None\<rparr>)"
proof (intro conjI impI)
  assume "oral_argument_primary page = Inr u"
  then show "get_oral_argument_url page m = dict_set ''oral_argument_url'' (attr_val u) m"
    by (simp add: get_oral_argument_url_def)
next
  assume "oral_argument_primary page = Inl e \<and> oral_argument_alternative page = Inr u"
  then show "get_oral_argument_url page m = dict_set ''oral_argument_url'' (attr_val u) m"
    by (simp add: get_oral_argument_url_def)
next
  assume "oral_argument_primary page = Inl e \<and> oral_argument_alternative page = Inl e2"
  then show "get_oral_argument_url page m = dict_set ''oral_argument_url'' PNone m"
    by (simp add: get_oral_argument_url_def)
next
  assume "oral_argument_primary page = Inl e \<and> oral_argument_alternative page = Inl e2"
  then show "map_of (get_oral_argument_url page m) ''oral_argument_url'' = Some PNone"
    by (simp add: get_oral_argument_url_def map_of_dict_set)
next
  assume both: "oral_argument_primary page = Inl e \<and> oral_argument_alternative page = Inl e2"
    and run: "chrome w = Inr driver \<and> listing_page w (listing_url case_year) = Inr items
        \<and> find_target_case case_name items = Some c \<and> h2_a c = Inr a
        \<and> description_el c = Inr d \<and> driver_get_case w (link_href a) = Inr page
        \<and> ''oral_argument_url'' \<notin> set (timeline_keys page)"
  have md: "get_case_metadata w case_year case_name = Inr (extract_metadata w c)"
    using run by (simp add: get_case_metadata_def)
  have "map_of (extract_metadata w c) ''oral_argument_url'' = Some PNone"
    using both run both_fail_field_null [of c a d w page e e2] by blast
  then have "\<not> truthy (dict_get (extract_metadata w c) ''oral_argument_url'')"
    by (simp add: dict_get_def)
  with md run show "get_transcript_with_selenium w case_year case_name full_transcript =
          \<lparr>raised = None, reported = None, session_quit = True, output_file = None\<rparr>"
    using no_url_returns_early [of w driver case_year case_name "extract_metadata w c"] by blast
next
  assume "chrome w = Inr driver \<and> get_case_metadata w case_year case_name = Inr md
      \<and> \<not> truthy (dict_get md ''oral_argument_url'')"
  then show "get_transcript_with_selenium w case_year case_name full_transcript =
        \<lparr>raised = None, reported = None, session_quit = True, output_file = None\<rparr>"
    using no_url_returns_early [of w driver case_year case_name md] by blast
qed

theorem no_oral_argument_url_no_transcript_witness:
  "map_of (get_oral_argument_url page_without_audio []) ''oral_argument_url'' = Some PNone
   \<and> get_oral_argument_url demo_page [] = [(''oral_argument_url'', PStr audio_url)]
   \<and> get_transcript_with_selenium
        (demo_web demo_listing page_without_audio (late_blocks demo_blocks)) ''2023'' ''Acheson'' True
       = \<lparr>raised = None, reported = None, session_quit = True, output_file = None\<rparr>"
proof -
  let ?w = "demo_web demo_listing page_without_audio (late_blocks demo_blocks)"
  have both: "oral_argument_primary page_without_audio = Inl no_such_element
      \<and> oral_argument_alternative page_without_audio = Inl no_such_element"
    by (simp add: page_without_audio_def)
  have first: "oral_argument_primary demo_page = Inr (Some audio_url)"
    by (simp add: demo_page_def)
  have run: "chrome ?w = Inr () \<and> listing_page ?w (listing_url ''2023'') = Inr demo_listing
        \<and> find_target_case ''Acheson'' demo_listing = Some acheson_item
        \<and> h2_a acheson_item = Inr acheson_link
        \<and> description_el acheson_item = Inr ''A case about standing to sue under the ADA.''
        \<and> driver_get_case ?w (link_href acheson_link) = Inr page_without_audio
        \<and> ''oral_argument_url'' \<notin> set (timeline_keys page_without_audio)"
    by code_simp
  note t1 = no_oral_argument_url_no_transcript [of page_without_audio "Some audio_url" "[]"
      no_such_element no_such_element ?w "()" "''2023''" demo_listing "''Acheson''" acheson_item
      acheson_link "''A case about standing to sue under the ADA.''" True "[]"]
  note t2 = no_oral_argument_url_no_transcript [of demo_page "Some audio_url" "[]"
      no_such_element no_such_element ?w "()" "''2023''" demo_listing "''Acheson''" acheson_item
      acheson_link "''A case about standing to sue under the ADA.''" True "[]"]
  from t1 both run have
    "map_of (get_oral_argument_url page_without_audio []) ''oral_argument_url'' = Some PNone"
    and "get_transcript_with_selenium ?w ''2023'' ''Acheson'' True
       = \<lparr>raised = None, reported = None, session_quit = True, output_file = None\<rparr>"
    by blast+
  moreover from t2 first have
    "get_oral_argument_url demo_page [] = dict_set ''oral_argument_url'' (attr_val (Some audio_url)) []"
    by blast
  then have "get_oral_argument_url demo_page [] = [(''oral_argument_url'', PStr audio_url)]"
    by (simp add: dict_set_def)
  ultimately show ?thesis by blast
qed

text \<open>
  Claim C4 as stated fails.  On a page where both selectors raise, the lookup sets the
  key to \<^verbatim>\<open>None\<close>; but a timeline item headed \<^verbatim>\<open>oral_argument_url\<close> then stores its
  text under the same key, and the run goes on to the transcript and writes a file.
\<close>

theorem timeline_header_overwrites_url:
  "oral_argument_primary page_with_url_header = Inl no_such_element
   \<and> oral_argument_alternative page_with_url_header = Inl no_such_element
   \<and> map_of (get_oral_argument_url page_with_url_header []) ''oral_argument_url'' = Some PNone
   \<and> map_of (extract_metadata
               (demo_web demo_listing page_with_url_header (late_blocks demo_blocks)) acheson_item)
        ''oral_argument_url'' = Some (PStr audio_url)
   \<and> map_option fst
        (output_file (get_transcript_with_selenium
           (demo_web demo_listing page_with_url_header (late_blocks demo_blocks))
           ''2023'' ''Acheson'' True))
       = Some ''Acheson_Hotels_LLC_v_Laufer_transcript_full.json''"
  by code_simp

subsection \<open>C10: the handler of the timeline loop\<close>

text \<open>
  Claim C10, as amended.  The handler of the timeline loop stores \<^verbatim>\<open>None\<close> under
  whatever the variable \<^verbatim>\<open>header\<close> holds.  When the header lookup of an item fails
  after an earlier item of the same pass was read, \<^verbatim>\<open>header\<close> still holds the
  earlier item's key, and the date already extracted under that key is overwritten
  with \<^verbatim>\<open>None\<close>.  When the header of an item is read and only its date lookup fails,
  \<^verbatim>\<open>None\<close> is stored under the item's own key and the dates of earlier items under
  other keys are kept.  When the header lookup of the very first item fails, the
  handler itself raises on the unbound variable, and all remaining items are skipped:
  only the citation is stored.
\<close>

theorem timeline_handler_uses_last_header:
  "(item_h3 earlier = Inr h1 \<and> item_date earlier = Inr d1 \<and> item_h3 later = Inl e
      \<and> py_lower (py_strip h1) \<notin> set (item_keys rest) \<longrightarrow>
      map_of (fst (timeline_loop (earlier # later # rest) header m)) (py_lower (py_strip h1))
        = Some PNone)
 \<and> (item_h3 earlier = Inr h1 \<and> item_date earlier = Inr d1
      \<and> item_h3 later = Inr h2 \<and> item_date later = Inl e
      \<and> py_lower (py_strip h2) \<noteq> py_lower (py_strip h1)
      \<and> py_lower (py_strip h1) \<notin> set (item_keys rest) \<longrightarrow>
      map_of (fst (timeline_loop (earlier # later # rest) header m)) (py_lower (py_strip h1))
        = Some (PStr (py_strip d1)))
 \<and> (item_h3 later = Inr h2 \<and> item_date later = Inl e \<longrightarrow>
      timeline_loop (later # rest) header m =
        timeline_loop rest (Some (py_lower (py_strip h2))) (dict_set (py_lower (py_strip h2)) PNone m))
 \<and> (item_h3 later = Inl e \<longrightarrow>
      timeline_loop (later # rest) (Some h) m = timeline_loop rest (Some h) (dict_set h PNone m)
    \<and> timeline_loop (later # rest) None m = (m, Some UnboundLocalError)
    \<and> (timeline page = Inr sec \<and> timeline_items sec = later # rest \<longrightarrow>
          get_timeline page m =
            (case citation_span sec of
               Inr c \<Rightarrow> dict_set ''citation'' (PStr (py_strip c)) m
             | Inl e \<Rightarrow> dict_set ''citation'' PNone m)))"
proof (intro conjI impI)
  assume a: "item_h3 earlier = Inr h1 \<and> item_date earlier = Inr d1 \<and> item_h3 later = Inl e
      \<and> py_lower (py_strip h1) \<notin> set (item_keys rest)"
  let ?k = "py_lower (py_strip h1)"
  let ?m = "dict_set ?k PNone (dict_set ?k (PStr (py_strip d1)) m)"
  have "timeline_loop (earlier # later # rest) header m = timeline_loop rest (Some ?k) ?m"
    using a by (simp add: Let_def)
  moreover have "map_of (fst (timeline_loop rest (Some ?k) ?m)) ?k = Some PNone"
    using a by (intro timeline_loop_stays_None) (simp_all add: map_of_dict_set)
  ultimately show "map_of (fst (timeline_loop (earlier # later # rest) header m)) ?k = Some PNone"
    by simp
next
  assume a: "item_h3 earlier = Inr h1 \<and> item_date earlier = Inr d1
      \<and> item_h3 later = Inr h2 \<and> item_date later = Inl e
      \<and> py_lower (py_strip h2) \<noteq> py_lower (py_strip h1)
      \<and> py_lower (py_strip h1) \<notin> set (item_keys rest)"
  let ?k1 = "py_lower (py_strip h1)"
  let ?k2 = "py_lower (py_strip h2)"
  let ?m = "dict_set ?k2 PNone (dict_set ?k1 (PStr (py_strip d1)) m)"
  have "timeline_loop (earlier # later # rest) header m = timeline_loop rest (Some ?k2) ?m"
    using a by (simp add: Let_def)
  moreover have "map_of (fst (timeline_loop rest (Some ?k2) ?m)) ?k1 = map_of ?m ?k1"
    using a by (intro timeline_loop_frame) auto
  moreover have "map_of ?m ?k1 = Some (PStr (py_strip d1))"
    using a by (auto simp: map_of_dict_set)
  ultimately show "map_of (fst (timeline_loop (earlier # later # rest) header m)) ?k1
        = Some (PStr (py_strip d1))"
    by simp
next
  assume "item_h3 later = Inr h2 \<and> item_date later = Inl e"
  then show "timeline_loop (later # rest) header m =
        timeline_loop rest (Some (py_lower (py_strip h2))) (dict_set (py_lower (py_strip h2)) PNone m)"
    by (simp add: Let_def)
next
  assume "item_h3 later = Inl e"
  then show "timeline_loop (later # rest) (Some h) m = timeline_loop rest (Some h) (dict_set h PNone m)"
    by simp
next
  assume "item_h3 later = Inl e"
  then show "timeline_loop (later # rest) None m = (m, Some UnboundLocalError)"
    by simp
next
  assume "item_h3 later = Inl e" and "timeline page = Inr sec \<and> timeline_items sec = later # rest"
  then show "get_timeline page m =
            (case citation_span sec of
               Inr c \<Rightarrow> dict_set ''citation'' (PStr (py_strip c)) m
             | Inl e \<Rightarrow> dict_set ''citation'' PNone m)"
    by (simp add: get_timeline_def Let_def split: sum.splits)
qed

text \<open>
  With the items \<^verbatim>\<open>Granted\<close>, an item without header, and \<^verbatim>\<open>Decided\<close>, the date
  read for \<^verbatim>\<open>granted\<close> ends as \<^verbatim>\<open>None\<close>; and when the item without header comes
  first, the loop stores nothing.
\<close>

theorem timeline_handler_uses_last_header_witness:
  "map_of (fst (timeline_loop [granted_item, headless_item, decided_item] None [])) ''granted''
     = Some PNone
   \<and> timeline_loop [granted_item, headless_item, decided_item] None []
       = ([(''granted'', PNone), (''decided'', PStr ''Dec 5, 2023'')], None)
   \<and> map_of (fst (timeline_loop [granted_item, argued_item_no_date, decided_item] None [])) ''granted''
       = Some (PStr ''Mar 27, 2023'')
   \<and> timeline_loop [headless_item, granted_item, argued_item] None []
       = ([], Some UnboundLocalError)"
proof -
  have a1: "item_h3 granted_item = Inr ''Granted'' \<and> item_date granted_item = Inr '' Mar 27, 2023 ''
      \<and> item_h3 headless_item = Inl no_such_element
      \<and> py_lower (py_strip ''Granted'') \<notin> set (item_keys [decided_item])"
    by code_simp
  have a2: "item_h3 granted_item = Inr ''Granted'' \<and> item_date granted_item = Inr '' Mar 27, 2023 ''
      \<and> item_h3 argued_item_no_date = Inr ''Argued'' \<and> item_date argued_item_no_date = Inl no_such_element
      \<and> py_lower (py_strip ''Argued'') \<noteq> py_lower (py_strip ''Granted'')
      \<and> py_lower (py_strip ''Granted'') \<notin> set (item_keys [decided_item])"
    by code_simp
  have k: "py_lower (py_strip ''Granted'') = ''granted''"
    by code_simp
  have d: "py_strip '' Mar 27, 2023 '' = ''Mar 27, 2023''"
    by code_simp
  have full: "timeline_loop [granted_item, headless_item, decided_item] None []
       = ([(''granted'', PNone), (''decided'', PStr ''Dec 5, 2023'')], None)"
    by code_simp
  note t1 = timeline_handler_uses_last_header [of granted_item "''Granted''" "'' Mar 27, 2023 ''"
      headless_item no_such_element "[decided_item]" None "[]" "''Argued''" "''x''"
      demo_page "\<lparr>citation_span = Inr [], timeline_items = []\<rparr>"]
  note t2 = timeline_handler_uses_last_header [of granted_item "''Granted''" "'' Mar 27, 2023 ''"
      argued_item_no_date no_such_element "[decided_item]" None "[]" "''Argued''" "''x''"
      demo_page "\<lparr>citation_span = Inr [], timeline_items = []\<rparr>"]
  note t3 = timeline_handler_uses_last_header [of granted_item "''Granted''" "'' Mar 27, 2023 ''"
      headless_item no_such_element "[granted_item, argued_item]" None "[]" "''Argued''" "''x''"
      demo_page "\<lparr>citation_span = Inr [], timeline_items = []\<rparr>"]
  from t1 a1 have
    "map_of (fst (timeline_loop [granted_item, headless_item, decided_item] None []))
       (py_lower (py_strip ''Granted'')) = Some PNone"
    by blast
  moreover from t2 a2 have
    "map_of (fst (timeline_loop [granted_item, argued_item_no_date, decided_item] None []))
       (py_lower (py_strip ''Granted'')) = Some (PStr (py_strip '' Mar 27, 2023 ''))"
    by blast
  moreover from t3 a1 have
    "timeline_loop [headless_item, granted_item, argued_item] None [] = ([], Some UnboundLocalError)"
    by blast
  ultimately show ?thesis using full by (simp add: k d)
qed

text \<open>
  Claim C10 as stated fails: when the date of the second item cannot be read, its
  header has been read, so \<^verbatim>\<open>None\<close> is stored under \<^verbatim>\<open>argued\<close>, and the date
  extracted for \<^verbatim>\<open>granted\<close> is not overwritten.
\<close>

theorem date_failure_keeps_earlier_date:
  "item_h3 argued_item_no_date = Inr ''Argued''
   \<and> item_date argued_item_no_date = Inl no_such_element
   \<and> timeline_loop [granted_item, argued_item_no_date] None []
       = ([(''granted'', PStr ''Mar 27, 2023''), (''argued'', PNone)], None)"
  by code_simp

subsection \<open>C2: the carry-over law of speakers\<close>

text \<open>
  Claim C2, as amended.  Let an entry \<open>e\<close> be emitted for block \<open>b\<close> after the blocks
  \<open>pre\<close> were processed.  When \<open>b\<close> has a non-empty label of its own, the speaker of
  \<open>e\<close> is that label, trimmed.  Otherwise it is the speaker carried in
  \<^verbatim>\<open>current_speaker\<close>, and when none is carried, the trimmed text of the first speaker
  label of the page.  In terms of the blocks: let \<open>d\<close> be the most recent block before
  \<open>b\<close> that was read without exception and has a non-empty label of its own, whether
  or not it emitted an entry.  If there is such a \<open>d\<close> and its trimmed label is not
  blank, the speaker of \<open>e\<close> is that trimmed label.  If there is no such \<open>d\<close>, or its
  label is blank, the speaker of \<open>e\<close> is the trimmed text of the first speaker label
  of the page, as found while processing \<open>b\<close> or one of the blocks between \<open>d\<close> (or the
  start) and \<open>b\<close>.  Finally, the speaker of \<open>e\<close> is the speaker of the immediately
  preceding emitted entry provided that no earlier block was read with a label of its
  own and yet emitted no entry.
\<close>

theorem carry_over_law:
  assumes run: "transcript_loop pre (None, []) = (cs, tr)"
      and emit: "process_block (cs, tr) b = (cs', tr @ [e])"
  shows "(case own_label b of
            Some l \<Rightarrow> entry_speaker e = py_strip l
          | None \<Rightarrow>
              if str_truthy cs then cs = Some (entry_speaker e)
              else \<exists>s rest. page_speakers b = Inr (s # rest) \<and> entry_speaker e = py_strip s)
       \<and> (own_label b = None \<and> pre = before @ d # mid \<and> declares_label d = Some l
            \<and> py_strip l \<noteq> [] \<and> list_all (\<lambda>m. declares_label m = None) mid
          \<longrightarrow> entry_speaker e = py_strip l)
       \<and> (own_label b = None
            \<and> (pre = mid \<or> (pre = before @ d # mid \<and> declares_label d = Some l \<and> py_strip l = []))
            \<and> list_all (\<lambda>m. declares_label m = None) mid
          \<longrightarrow> (\<exists>m \<in> set (mid @ [b]). \<exists>s rest.
                 page_speakers m = Inr (s # rest) \<and> entry_speaker e = py_strip s))
       \<and> (own_label b = None \<and> tr \<noteq> [] \<and> list_all (\<lambda>d. \<not> labelled_without_entry d) pre
          \<longrightarrow> entry_speaker e = entry_speaker (last tr))"
proof (intro conjI impI)
  note em = emitted_entry [OF emit]
  show "case own_label b of
            Some l \<Rightarrow> entry_speaker e = py_strip l
          | None \<Rightarrow>
              if str_truthy cs then cs = Some (entry_speaker e)
              else \<exists>s rest. page_speakers b = Inr (s # rest) \<and> entry_speaker e = py_strip s"
  proof (cases "own_label b")
    case (Some l)
    have "Some (entry_speaker e) = Some (py_strip l)"
      using em resolve_own_label [OF Some, of cs "Some (entry_speaker e)"] by simp
    then show ?thesis using Some by simp
  next
    case None
    show ?thesis
    proof (cases "str_truthy cs")
      case True
      have "Some (entry_speaker e) = cs"
        using em resolve_carried [OF None True, of "Some (entry_speaker e)"] by simp
      then show ?thesis using None True by simp
    next
      case False
      then show ?thesis using None em resolve_fallback [of b cs "entry_speaker e"] by simp
    qed
  qed
next
  assume a: "own_label b = None \<and> pre = before @ d # mid \<and> declares_label d = Some l
            \<and> py_strip l \<noteq> [] \<and> list_all (\<lambda>m. declares_label m = None) mid"
  then obtain x where rd: "read_block d = Inr x" and ld: "own_label d = Some l"
    using declares_label_Some by blast
  obtain cs0 tr0 where s0: "transcript_loop before (None, []) = (cs0, tr0)"
    by (cases "transcript_loop before (None, [])")
  obtain cs1 tr1 where s1: "process_block (cs0, tr0) d = (cs1, tr1)"
    by (cases "process_block (cs0, tr0) d")
  have c1: "cs1 = Some (py_strip l)" using labelled_sets_speaker [OF rd ld, of cs0 tr0] s1 by simp
  have "transcript_loop pre (None, []) = transcript_loop mid (cs1, tr1)"
    using a s0 s1 by (simp add: transcript_loop_append)
  then have "cs = fst (transcript_loop mid (cs1, tr1))" using run by (metis fst_conv)
  also have "\<dots> = cs1" using undeclared_run_keeps_speaker [of mid cs1 tr1] a c1 by simp
  finally have cs: "cs = Some (py_strip l)" using c1 by simp
  then have "str_truthy cs" using a by simp
  then have "Some (entry_speaker e) = cs"
    using a emitted_entry [OF emit] resolve_carried [of b cs "Some (entry_speaker e)"] by simp
  with cs show "entry_speaker e = py_strip l" by simp
next
  assume a: "own_label b = None
            \<and> (pre = mid \<or> (pre = before @ d # mid \<and> declares_label d = Some l \<and> py_strip l = []))
            \<and> list_all (\<lambda>m. declares_label m = None) mid"
  have "\<exists>cs1 tr1. \<not> str_truthy cs1 \<and> transcript_loop pre (None, []) = transcript_loop mid (cs1, tr1)"
  proof -
    from a have "pre = mid \<or> (pre = before @ d # mid \<and> declares_label d = Some l \<and> py_strip l = [])"
      by simp
    then show ?thesis
    proof
      assume "pre = mid"
      then have "\<not> str_truthy None \<and> transcript_loop pre (None, []) = transcript_loop mid (None, [])"
        by simp
      then show ?thesis by blast
    next
      assume b: "pre = before @ d # mid \<and> declares_label d = Some l \<and> py_strip l = []"
      then obtain x where rd: "read_block d = Inr x" and ld: "own_label d = Some l"
        using declares_label_Some by blast
      obtain cs0 tr0 where s0: "transcript_loop before (None, []) = (cs0, tr0)"
        by (cases "transcript_loop before (None, [])")
      obtain cs1 tr1 where s1: "process_block (cs0, tr0) d = (cs1, tr1)"
        by (cases "process_block (cs0, tr0) d")
      have "cs1 = Some (py_strip l)" using labelled_sets_speaker [OF rd ld, of cs0 tr0] s1 by simp
      with b have "\<not> str_truthy cs1" by simp
      moreover have "transcript_loop pre (None, []) = transcript_loop mid (cs1, tr1)"
        using b s0 s1 by (simp add: transcript_loop_append)
      ultimately show ?thesis by blast
    qed
  qed
  then obtain cs1 tr1 where f1: "\<not> str_truthy cs1"
    and l1: "transcript_loop pre (None, []) = transcript_loop mid (cs1, tr1)" by blast
  from l1 run have cs: "cs = fst (transcript_loop mid (cs1, tr1))" by (metis fst_conv)
  from a have "list_all (\<lambda>m. declares_label m = None) mid" by simp
  from undeclared_run [OF this, of cs1 tr1] cs f1
  have alt: "cs = cs1
     \<or> (\<exists>m \<in> set mid. \<exists>s rest. page_speakers m = Inr (s # rest) \<and> cs = Some (py_strip s))"
    by auto
  note em = emitted_entry [OF emit]
  from a have nb: "own_label b = None" by simp
  show "\<exists>m \<in> set (mid @ [b]). \<exists>s rest.
          page_speakers m = Inr (s # rest) \<and> entry_speaker e = py_strip s"
  proof (cases "str_truthy cs")
    case True
    have c: "Some (entry_speaker e) = cs"
      using em resolve_carried [OF nb True, of "Some (entry_speaker e)"] by simp
    from True f1 alt obtain m s rest where "m \<in> set mid" and "page_speakers m = Inr (s # rest)"
      and "cs = Some (py_strip s)" by auto
    with c have "m \<in> set (mid @ [b])" and "page_speakers m = Inr (s # rest)"
      and "entry_speaker e = py_strip s" by simp_all
    then show ?thesis by blast
  next
    case False
    then obtain s rest where "page_speakers b = Inr (s # rest)" and "entry_speaker e = py_strip s"
      using nb em resolve_fallback [of b cs "entry_speaker e"] by auto
    moreover have "b \<in> set (mid @ [b])" by simp
    ultimately show ?thesis by blast
  qed
next
  assume a: "own_label b = None \<and> tr \<noteq> [] \<and> list_all (\<lambda>d. \<not> labelled_without_entry d) pre"
  have "carry_inv (None, [])" by (simp add: carry_inv_def)
  then have "carry_inv (transcript_loop pre (None, []))" using a carry_inv_loop by blast
  then have inv: "carry_inv (cs, tr)" using run by simp
  then have c: "cs = Some (entry_speaker (last tr))" using a by (simp add: carry_inv_def)
  have "last tr \<in> set tr" using a by simp
  then have "entry_speaker (last tr) \<noteq> []" using inv by (auto simp: carry_inv_def list_all_iff)
  then have "str_truthy cs" using c by simp
  then have "Some (entry_speaker e) = cs"
    using a emitted_entry [OF emit] resolve_carried [of b cs "Some (entry_speaker e)"] by simp
  with c show "entry_speaker e = entry_speaker (last tr)" by simp
qed

text \<open>
  Six blocks of which only the first and the fourth declare a label: the fifth entry
  has the speaker of the fourth block's label, which is also the speaker of the entry
  before it.  And three blocks of which the second has a blank label: the entry of the
  third has the first speaker label of the page, not the label of the first block.
\<close>

theorem carry_over_law_witness:
  "build_transcript True every_third =
     [roberts ''We will hear argument'', roberts ''this morning'', roberts ''Mr. Unikowsky.'',
      unikowsky ''Mr. Chief Justice,'', unikowsky ''and may it please'', unikowsky ''the Court'']
   \<and> own_label (every_third ! 4) = None
   \<and> entry_speaker (build_transcript True every_third ! 4) = ''Adam G. Unikowsky''
   \<and> entry_speaker (build_transcript True every_third ! 4)
       = entry_speaker (build_transcript True every_third ! 3)
   \<and> build_transcript True blank_label =
       [kagan ''Thank you, counsel.'', roberts ''May I ask about mootness?'']
   \<and> (\<exists>m \<in> set (drop 2 blank_label). \<exists>s rest. page_speakers m = Inr (s # rest)
         \<and> entry_speaker (build_transcript True blank_label ! 1) = py_strip s)"
proof -
  let ?tr = "[roberts ''We will hear argument'', roberts ''this morning'', roberts ''Mr. Unikowsky.'',
      unikowsky ''Mr. Chief Justice,'']"
  let ?b = "spoken ''and may it please'' None"
  let ?d = "spoken ''Mr. Chief Justice,'' (Some (Some ''Adam G. Unikowsky''))"
  have run: "transcript_loop (take 4 every_third) (None, []) = (Some ''Adam G. Unikowsky'', ?tr)"
    by code_simp
  have emit: "process_block (Some ''Adam G. Unikowsky'', ?tr) ?b
      = (Some ''Adam G. Unikowsky'', ?tr @ [unikowsky ''and may it please''])"
    by code_simp
  have a2: "own_label ?b = None \<and> take 4 every_third = take 3 every_third @ ?d # []
      \<and> declares_label ?d = Some ''Adam G. Unikowsky'' \<and> py_strip ''Adam G. Unikowsky'' \<noteq> []
      \<and> list_all (\<lambda>m. declares_label m = None) []"
    by code_simp
  have a4: "own_label ?b = None \<and> ?tr \<noteq> []
      \<and> list_all (\<lambda>d. \<not> labelled_without_entry d) (take 4 every_third)"
    by code_simp
  have full: "build_transcript True every_third =
     [roberts ''We will hear argument'', roberts ''this morning'', roberts ''Mr. Unikowsky.'',
      unikowsky ''Mr. Chief Justice,'', unikowsky ''and may it please'', unikowsky ''the Court'']"
    by code_simp
  have b: "every_third ! 4 = ?b"
    by (simp add: every_third_def)
  have s: "py_strip ''Adam G. Unikowsky'' = ''Adam G. Unikowsky''"
    by code_simp
  note t = carry_over_law [OF run emit, of "take 3 every_third" ?d "[]" "''Adam G. Unikowsky''"]
  from t a2 have "entry_speaker (unikowsky ''and may it please'') = py_strip ''Adam G. Unikowsky''"
    by blast
  moreover from t a4 have
    "entry_speaker (unikowsky ''and may it please'') = entry_speaker (last ?tr)"
    by blast
  ultimately have first: "build_transcript True every_third =
     [roberts ''We will hear argument'', roberts ''this morning'', roberts ''Mr. Unikowsky.'',
      unikowsky ''Mr. Chief Justice,'', unikowsky ''and may it please'', unikowsky ''the Court'']
   \<and> own_label (every_third ! 4) = None
   \<and> entry_speaker (build_transcript True every_third ! 4) = ''Adam G. Unikowsky''
   \<and> entry_speaker (build_transcript True every_third ! 4)
       = entry_speaker (build_transcript True every_third ! 3)"
    using full b a2 s by simp
  let ?c = "spoken ''May I ask about mootness?'' None"
  let ?g = "spoken ''Go on.'' (Some (Some ''  ''))"
  have run2: "transcript_loop (take 2 blank_label) (None, []) = (Some [], [kagan ''Thank you, counsel.''])"
    by code_simp
  have emit2: "process_block (Some [], [kagan ''Thank you, counsel.'']) ?c
      = (Some ''John G. Roberts, Jr.'',
         [kagan ''Thank you, counsel.''] @ [roberts ''May I ask about mootness?''])"
    by code_simp
  have a3: "own_label ?c = None
      \<and> (take 2 blank_label = []
          \<or> (take 2 blank_label = take 1 blank_label @ ?g # []
              \<and> declares_label ?g = Some ''  '' \<and> py_strip ''  '' = []))
      \<and> list_all (\<lambda>m. declares_label m = None) []"
    by code_simp
  have full2: "build_transcript True blank_label =
       [kagan ''Thank you, counsel.'', roberts ''May I ask about mootness?'']"
    by code_simp
  have d2: "drop 2 blank_label = [] @ [?c]"
    by (simp add: blank_label_def)
  note u = carry_over_law [OF run2 emit2, of "take 1 blank_label" ?g "[]" "''  ''"]
  from u a3 have "\<exists>m \<in> set ([] @ [?c]). \<exists>s rest. page_speakers m = Inr (s # rest)
         \<and> entry_speaker (roberts ''May I ask about mootness?'') = py_strip s"
    by blast
  then have second: "\<exists>m \<in> set (drop 2 blank_label). \<exists>s rest. page_speakers m = Inr (s # rest)
         \<and> entry_speaker (build_transcript True blank_label ! 1) = py_strip s"
    using full2 d2 by simp
  from first full2 second show ?thesis by blast
qed

text \<open>
  Claim C2 as stated fails in two ways.  A labelled block whose text stays empty sets
  the carried speaker without emitting an entry: the next unlabelled block is then
  attributed to that label, not to the speaker of the preceding emitted entry.  And a
  first block without a label has no preceding entry at all: its speaker is the first
  speaker label of the page.
\<close>

theorem carry_over_not_previous_entry:
  "own_label (silent_turn ! 2) = None
   \<and> build_transcript True silent_turn =
       [roberts ''Thank you, counsel.'', kagan ''May I ask about mootness?'']
   \<and> entry_speaker (build_transcript True silent_turn ! 1)
       \<noteq> entry_speaker (build_transcript True silent_turn ! 0)
   \<and> own_label (spoken ''Good morning.'' None) = None
   \<and> build_transcript True [spoken ''Good morning.'' None] = [roberts ''Good morning.'']"
  by code_simp

subsection \<open>C5: entries per mode\<close>

text \<open>
  Claim C5.  In sample mode the transcript has at most three entries, whatever the
  number of blocks; this holds for the transcript of every file a sample run writes.
  In full mode the number of entries is the number of blocks that have text and a
  resolved speaker when line 327 tests them.  A block with both appends exactly one
  entry; a block that lacks either appends none.
\<close>

theorem entries_per_mode:
  "length (build_transcript False blocks) \<le> 3
   \<and> (output_file (get_transcript_with_selenium w case_year case_name False) = Some (filename, r)
        \<longrightarrow> length (result_transcript r) \<le> 3)
   \<and> length (build_transcript True blocks) =
       length (filter (\<lambda>i. has_text (speaker_before blocks i) (blocks ! i)
                            \<and> has_speaker (speaker_before blocks i) (blocks ! i))
                 [0..<length blocks])
   \<and> (has_text cs b \<and> has_speaker cs b \<longrightarrow> (\<exists>en. snd (process_block (cs, tr) b) = tr @ [en]))
   \<and> (\<not> has_text cs b \<or> \<not> has_speaker cs b \<longrightarrow> snd (process_block (cs, tr) b) = tr)"
proof (intro conjI impI)
  show "length (build_transcript False blocks) \<le> 3"
    by (rule sample_at_most_three)
next
  assume "output_file (get_transcript_with_selenium w case_year case_name False) = Some (filename, r)"
  then obtain bs where "result_transcript r = build_transcript False bs"
    using written_transcript by blast
  then show "length (result_transcript r) \<le> 3"
    using sample_at_most_three [of bs] by simp
next
  show "length (build_transcript True blocks) =
       length (filter (\<lambda>i. has_text (speaker_before blocks i) (blocks ! i)
                            \<and> has_speaker (speaker_before blocks i) (blocks ! i))
                 [0..<length blocks])"
    using loop_count [of blocks] by (simp add: build_transcript_def limit_blocks_def emits_def)
next
  assume "has_text cs b \<and> has_speaker cs b"
  then obtain en where "block_outcome cs b = APPENDED en" using emits_iff [of cs b] by (auto simp: emits_def)
  then have "snd (process_block (cs, tr) b) = tr @ [en]" by (simp add: snd_process_block)
  then show "\<exists>en. snd (process_block (cs, tr) b) = tr @ [en]" by blast
next
  assume "\<not> has_text cs b \<or> \<not> has_speaker cs b"
  then have "\<not> emits cs b" by (simp add: emits_def)
  then have "\<nexists>en. block_outcome cs b = APPENDED en" by (simp add: emits_iff)
  then show "snd (process_block (cs, tr) b) = tr"
    by (cases "block_outcome cs b") (simp_all add: snd_process_block)
qed

text \<open>
  Seven blocks, of which the fourth raises and the sixth is blank: a sample run
  writes three entries, a full run five.
\<close>

theorem entries_per_mode_witness:
  "length demo_blocks = 7
   \<and> length (build_transcript False demo_blocks) = 3
   \<and> map_option (\<lambda>f. length (result_transcript (snd f)))
        (output_file (get_transcript_with_selenium
           (demo_web demo_listing demo_page (late_blocks demo_blocks)) ''2023'' ''Acheson'' False))
       = Some 3
   \<and> length (filter (\<lambda>i. has_text (speaker_before demo_blocks i) (demo_blocks ! i)
                          \<and> has_speaker (speaker_before demo_blocks i) (demo_blocks ! i))
               [0..<length demo_blocks]) = 5
   \<and> snd (process_block (Some ''John G. Roberts, Jr.'', []) (spoken ''   '' None)) = []"
proof -
  have n: "length demo_blocks = 7"
    by (simp add: demo_blocks_def)
  have s: "length (build_transcript False demo_blocks) = 3"
    by code_simp
  have f: "length (build_transcript True demo_blocks) = 5"
    by code_simp
  have r: "map_option (\<lambda>f. length (result_transcript (snd f)))
        (output_file (get_transcript_with_selenium
           (demo_web demo_listing demo_page (late_blocks demo_blocks)) ''2023'' ''Acheson'' False))
       = Some 3"
    by code_simp
  have blank: "\<not> has_text (Some ''John G. Roberts, Jr.'') (spoken ''   '' None)
      \<or> \<not> has_speaker (Some ''John G. Roberts, Jr.'') (spoken ''   '' None)"
    by code_simp
  note t = entries_per_mode [of demo_blocks
      "demo_web demo_listing demo_page (late_blocks demo_blocks)" "''2023''" "''Acheson''"
      "''x''" "\<lparr>result_case_name = [], result_argument_date = PNone, result_metadata = [],
                result_transcript = [], result_transcript_mode = []\<rparr>"
      "Some ''John G. Roberts, Jr.''" "spoken ''   '' None" "[]"]
  from t f have "length (filter (\<lambda>i. has_text (speaker_before demo_blocks i) (demo_blocks ! i)
                          \<and> has_speaker (speaker_before demo_blocks i) (demo_blocks ! i))
               [0..<length demo_blocks]) = 5"
    by simp
  moreover from t blank have
    "snd (process_block (Some ''John G. Roberts, Jr.'', []) (spoken ''   '' None)) = []"
    by blast
  ultimately show ?thesis using n s r by blast
qed

subsection \<open>C6: a failing block is skipped and the loop goes on\<close>

text \<open>
  Claim C6.  Every block ends in exactly one of the states \<open>APPENDED\<close>, \<open>SKIPPED\<close> and
  \<open>FAILED\<close>, and the transcript grows by its entry in the first and not at all in the
  other two.  A block that raises leaves both loop variables as they were, and the
  loop over a sequence that contains it gives the result of the loop over the
  sequence without it: the blocks after it are processed as if it were not there.
\<close>

theorem block_failure_isolated:
  "snd (process_block (cs, tr) b) =
     (case block_outcome cs b of APPENDED en \<Rightarrow> tr @ [en] | SKIPPED \<Rightarrow> tr | FAILED e \<Rightarrow> tr)
   \<and> (block_outcome cs b = FAILED e \<longrightarrow> process_block (cs, tr) b = (cs, tr))
   \<and> (block_outcome (fst (transcript_loop pre st)) b = FAILED e \<longrightarrow>
        transcript_loop (pre @ b # post) st = transcript_loop (pre @ post) st)"
proof (intro conjI impI)
  show "snd (process_block (cs, tr) b) =
     (case block_outcome cs b of APPENDED en \<Rightarrow> tr @ [en] | SKIPPED \<Rightarrow> tr | FAILED e \<Rightarrow> tr)"
    by (rule snd_process_block)
next
  assume "block_outcome cs b = FAILED e"
  then show "process_block (cs, tr) b = (cs, tr)" by (rule process_block_failed)
next
  assume f: "block_outcome (fst (transcript_loop pre st)) b = FAILED e"
  obtain cs1 tr1 where s: "transcript_loop pre st = (cs1, tr1)" by (cases "transcript_loop pre st")
  with f have "process_block (cs1, tr1) b = (cs1, tr1)" by (simp add: process_block_failed)
  with s show "transcript_loop (pre @ b # post) st = transcript_loop (pre @ post) st"
    by (simp add: transcript_loop_append)
qed

text \<open>
  The fourth example block raises when its text is read.  The loop over all seven
  blocks gives what the loop over the other six gives, and a full run writes its file
  with the entries of the blocks after the failing one.
\<close>

theorem block_failure_isolated_witness:
  "block_outcome (Some ''John G. Roberts, Jr.'') stale_block
     = FAILED (WebDriverError ''stale element reference'')
   \<and> transcript_loop demo_blocks (None, [])
       = transcript_loop (take 3 demo_blocks @ drop 4 demo_blocks) (None, [])
   \<and> map_option (\<lambda>f. result_transcript (snd f))
        (output_file (get_transcript_with_selenium
           (demo_web demo_listing demo_page (late_blocks demo_blocks)) ''2023'' ''Acheson'' True))
       = Some [roberts ''We will hear argument'', roberts ''this morning'', roberts ''Mr. Unikowsky.'',
               unikowsky ''Mr. Chief Justice,'', unikowsky ''and may it please the Court'']"
proof -
  have f: "block_outcome (fst (transcript_loop (take 3 demo_blocks) (None, []))) stale_block
      = FAILED (WebDriverError ''stale element reference'')"
    by code_simp
  have o: "block_outcome (Some ''John G. Roberts, Jr.'') stale_block
     = FAILED (WebDriverError ''stale element reference'')"
    by code_simp
  have d: "demo_blocks = take 3 demo_blocks @ stale_block # drop 4 demo_blocks"
    by (simp add: demo_blocks_def)
  have r: "map_option (\<lambda>f. result_transcript (snd f))
        (output_file (get_transcript_with_selenium
           (demo_web demo_listing demo_page (late_blocks demo_blocks)) ''2023'' ''Acheson'' True))
       = Some [roberts ''We will hear argument'', roberts ''this morning'', roberts ''Mr. Unikowsky.'',
               unikowsky ''Mr. Chief Justice,'', unikowsky ''and may it please the Court'']"
    by code_simp
  note t = block_failure_isolated [of "Some ''John G. Roberts, Jr.''" "[]" stale_block
      "WebDriverError ''stale element reference''" "take 3 demo_blocks" "(None, [])"
      "drop 4 demo_blocks"]
  from t f have "transcript_loop (take 3 demo_blocks @ stale_block # drop 4 demo_blocks) (None, [])
      = transcript_loop (take 3 demo_blocks @ drop 4 demo_blocks) (None, [])"
    by blast
  with d have "transcript_loop demo_blocks (None, [])
      = transcript_loop (take 3 demo_blocks @ drop 4 demo_blocks) (None, [])"
    by simp
  with o r show ?thesis by blast
qed

subsection \<open>C9: entries are in document order\<close>

text \<open>
  Claim C9.  The entries of the transcript come, one each and in the same order, from
  a subsequence of the blocks of the page: there are source blocks \<open>src\<close>, picked from
  the blocks without changing their order, such that the k-th entry holds the text
  and the timing attributes of the k-th source block.
\<close>

theorem entries_in_document_order:
  "\<exists>src. subseq src blocks
      \<and> list_all2 entry_from_block (build_transcript full_transcript blocks) src"
proof -
  from loop_sources [of "limit_blocks full_transcript blocks" None "[]"]
  obtain src new where s: "subseq src (limit_blocks full_transcript blocks)"
    and t: "snd (transcript_loop (limit_blocks full_transcript blocks) (None, [])) = [] @ new"
    and l: "list_all2 entry_from_block new src" by blast
  have "subseq (limit_blocks full_transcript blocks) blocks"
    by (simp add: limit_blocks_def subseq_take)
  with s have "subseq src blocks" by (rule subseq_order.order_trans)
  moreover have "build_transcript full_transcript blocks = new"
    using t by (simp add: build_transcript_def)
  ultimately show ?thesis using l by blast
qed

theorem entries_in_document_order_witness:
  "(\<exists>src. subseq src demo_blocks
      \<and> list_all2 entry_from_block
           [roberts ''We will hear argument'', roberts ''this morning'', roberts ''Mr. Unikowsky.'',
            unikowsky ''Mr. Chief Justice,'', unikowsky ''and may it please the Court''] src)"
proof -
  have f: "build_transcript True demo_blocks =
     [roberts ''We will hear argument'', roberts ''this morning'', roberts ''Mr. Unikowsky.'',
      unikowsky ''Mr. Chief Justice,'', unikowsky ''and may it please the Court'']"
    by code_simp
  from entries_in_document_order [of demo_blocks True] f show ?thesis by simp
qed

subsection \<open>C7: run-level failures are fatal\<close>

text \<open>
  Claim C7.  The three run-level failures end the run without an output file.  When
  the case is not in the listing, or no block is found at any of the polls, the
  handler of line 361 reports the exception and the driver is quit.  When the
  session cannot be created, the exception leaves the function; there is then no
  session, so none is left open.  In general, a run in which an exception was raised
  or reported has written no file.
\<close>

theorem run_level_failures_fatal:
  "(chrome w = Inl e \<longrightarrow>
      get_transcript_with_selenium w case_year case_name full_transcript =
        \<lparr>raised = Some e, reported = None, session_quit = False, output_file = None\<rparr>)
 \<and> (chrome w = Inr driver \<and> listing_page w (listing_url case_year) = Inr items
      \<and> find_target_case case_name items = None \<longrightarrow>
      get_transcript_with_selenium w case_year case_name full_transcript =
        \<lparr>raised = None, reported = Some (CaseNotFound case_name), session_quit = True,
         output_file = None\<rparr>)
 \<and> (chrome w = Inr driver \<and> get_case_metadata w case_year case_name = Inr m
      \<and> dict_get m ''oral_argument_url'' = PStr url \<and> url \<noteq> []
      \<and> transcript_page w url = Inr find_elements
      \<and> (\<forall>attempt < max_retries. find_elements attempt = Inr []) \<longrightarrow>
      get_transcript_with_selenium w case_year case_name full_transcript =
        \<lparr>raised = None, reported = Some BlocksNotLoaded, session_quit = True, output_file = None\<rparr>)
 \<and> (raised (get_transcript_with_selenium w case_year case_name full_transcript) \<noteq> None
      \<or> reported (get_transcript_with_selenium w case_year case_name full_transcript) \<noteq> None \<longrightarrow>
      output_file (get_transcript_with_selenium w case_year case_name full_transcript) = None)"
proof (intro conjI impI)
  assume "chrome w = Inl e"
  then show "get_transcript_with_selenium w case_year case_name full_transcript =
        \<lparr>raised = Some e, reported = None, session_quit = False, output_file = None\<rparr>"
    by (simp add: get_transcript_with_selenium_def)
next
  assume "chrome w = Inr driver \<and> listing_page w (listing_url case_year) = Inr items
      \<and> find_target_case case_name items = None"
  then show "get_transcript_with_selenium w case_year case_name full_transcript =
        \<lparr>raised = None, reported = Some (CaseNotFound case_name), session_quit = True,
         output_file = None\<rparr>"
    by (simp add: get_transcript_with_selenium_def transcript_body_def get_case_metadata_def)
next
  assume a: "chrome w = Inr driver \<and> get_case_metadata w case_year case_name = Inr m
      \<and> dict_get m ''oral_argument_url'' = PStr url \<and> url \<noteq> []
      \<and> transcript_page w url = Inr find_elements
      \<and> (\<forall>attempt < max_retries. find_elements attempt = Inr [])"
  then have "get_blocks find_elements = Inl BlocksNotLoaded"
    using no_blocks_after_retries by blast
  with a show "get_transcript_with_selenium w case_year case_name full_transcript =
        \<lparr>raised = None, reported = Some BlocksNotLoaded, session_quit = True, output_file = None\<rparr>"
    by (simp add: get_transcript_with_selenium_def transcript_body_def Let_def)
next
  assume "raised (get_transcript_with_selenium w case_year case_name full_transcript) \<noteq> None
      \<or> reported (get_transcript_with_selenium w case_year case_name full_transcript) \<noteq> None"
  then show "output_file (get_transcript_with_selenium w case_year case_name full_transcript) = None"
    by (auto simp: get_transcript_with_selenium_def Let_def split: sum.splits)
qed

theorem run_level_failures_fatal_witness:
  "get_transcript_with_selenium no_chrome ''2023'' ''Acheson'' False =
     \<lparr>raised = Some (WebDriverError ''session not created''), reported = None,
      session_quit = False, output_file = None\<rparr>
   \<and> get_transcript_with_selenium (demo_web demo_listing demo_page never_blocks) ''2023'' ''Dobbs'' False =
     \<lparr>raised = None, reported = Some (CaseNotFound ''Dobbs''), session_quit = True,
      output_file = None\<rparr>
   \<and> get_transcript_with_selenium (demo_web demo_listing demo_page never_blocks) ''2023'' ''Acheson'' True =
     \<lparr>raised = None, reported = Some BlocksNotLoaded, session_quit = True, output_file = None\<rparr>"
proof -
  let ?w = "demo_web demo_listing demo_page never_blocks"
  let ?m = "extract_metadata ?w acheson_item"
  have c: "chrome no_chrome = Inl (WebDriverError ''session not created'')"
    by (simp add: no_chrome_def)
  have nf: "chrome ?w = Inr () \<and> listing_page ?w (listing_url ''2023'') = Inr demo_listing
      \<and> find_target_case ''Dobbs'' demo_listing = None"
    by code_simp
  have md: "get_case_metadata ?w ''2023'' ''Acheson'' = Inr ?m"
    by code_simp
  have url: "dict_get ?m ''oral_argument_url'' = PStr audio_url \<and> audio_url \<noteq> []"
    by code_simp
  have pg: "transcript_page ?w audio_url = Inr never_blocks"
    by (simp add: demo_web_def)
  have nb: "\<forall>attempt < max_retries. never_blocks attempt = Inr []"
    by (simp add: never_blocks_def)
  have ch: "chrome ?w = Inr ()"
    by (simp add: demo_web_def)
  note t1 = run_level_failures_fatal [of no_chrome "WebDriverError ''session not created''"
      "''2023''" "''Acheson''" False "()" demo_listing ?m audio_url never_blocks]
  note t2 = run_level_failures_fatal [of ?w "WebDriverError ''session not created''"
      "''2023''" "''Dobbs''" False "()" demo_listing ?m audio_url never_blocks]
  note t3 = run_level_failures_fatal [of ?w "WebDriverError ''session not created''"
      "''2023''" "''Acheson''" True "()" demo_listing ?m audio_url never_blocks]
  from t1 c have "get_transcript_with_selenium no_chrome ''2023'' ''Acheson'' False =
     \<lparr>raised = Some (WebDriverError ''session not created''), reported = None,
      session_quit = False, output_file = None\<rparr>"
    by blast
  moreover from t2 nf have
    "get_transcript_with_selenium ?w ''2023'' ''Dobbs'' False =
     \<lparr>raised = None, reported = Some (CaseNotFound ''Dobbs''), session_quit = True,
      output_file = None\<rparr>"
    by blast
  moreover from t3 ch md url pg nb have
    "get_transcript_with_selenium ?w ''2023'' ''Acheson'' True =
     \<lparr>raised = None, reported = Some BlocksNotLoaded, session_quit = True, output_file = None\<rparr>"
    by blast
  ultimately show ?thesis by blast
qed

subsection \<open>C8: the session is always released\<close>

text \<open>
  Claim C8.  Whenever the session is created, the run ends with the driver quit, and
  no exception leaves the function: whether the body returned early, wrote its file
  or raised, the \<^verbatim>\<open>finally\<close> clause of line 363 has run.
\<close>

theorem session_always_released:
  "chrome w = Inr driver \<Longrightarrow>
     session_quit (get_transcript_with_selenium w case_year case_name full_transcript)
     \<and> raised (get_transcript_with_selenium w case_year case_name full_transcript) = None"
  by (simp add: get_transcript_with_selenium_def Let_def split: sum.splits)

text \<open>
  A run that writes its file, a run that returns early, and a run whose body raises:
  the driver is quit in each.
\<close>

theorem session_always_released_witness:
  "map_option fst (output_file (get_transcript_with_selenium
        (demo_web demo_listing demo_page (late_blocks demo_blocks)) ''2023'' ''Acheson'' False))
     = Some ''Acheson_Hotels_LLC_v_Laufer_transcript_test.json''
   \<and> session_quit (get_transcript_with_selenium
        (demo_web demo_listing demo_page (late_blocks demo_blocks)) ''2023'' ''Acheson'' False)
   \<and> session_quit (get_transcript_with_selenium
        (demo_web demo_listing page_without_audio (late_blocks demo_blocks)) ''2023'' ''Acheson'' False)
   \<and> reported (get_transcript_with_selenium
        (demo_web demo_listing demo_page never_blocks) ''2023'' ''Acheson'' False)
       = Some BlocksNotLoaded
   \<and> session_quit (get_transcript_with_selenium
        (demo_web demo_listing demo_page never_blocks) ''2023'' ''Acheson'' False)"
proof -
  have c1: "chrome (demo_web demo_listing demo_page (late_blocks demo_blocks)) = Inr ()"
    by (simp add: demo_web_def)
  have c2: "chrome (demo_web demo_listing page_without_audio (late_blocks demo_blocks)) = Inr ()"
    by (simp add: demo_web_def)
  have c3: "chrome (demo_web demo_listing demo_page never_blocks) = Inr ()"
    by (simp add: demo_web_def)
  have f: "map_option fst (output_file (get_transcript_with_selenium
        (demo_web demo_listing demo_page (late_blocks demo_blocks)) ''2023'' ''Acheson'' False))
     = Some ''Acheson_Hotels_LLC_v_Laufer_transcript_test.json''"
    by code_simp
  have r: "reported (get_transcript_with_selenium
        (demo_web demo_listing demo_page never_blocks) ''2023'' ''Acheson'' False)
       = Some BlocksNotLoaded"
    by code_simp
  from session_always_released [OF c1, of "''2023''" "''Acheson''" False]
    session_always_released [OF c2, of "''2023''" "''Acheson''" False]
    session_always_released [OF c3, of "''2023''" "''Acheson''" False] f r
  show ?thesis by blast
qed

end
